theory Spec2Isabelle
  imports Complex_Main
begin

section \<open>Python values\<close>

text \<open>
  A Python \<open>str\<close> is the list of its Unicode code points. ASCII literals are written
  \<open>str ''...''\<close>; characters outside ASCII are given by their code point.
\<close>

type_synonym pystr = "nat list"

abbreviation (input) str :: "string \<Rightarrow> pystr" where
  "str cs \<equiv> map of_char cs"

text \<open>\<open>t.startswith(w)\<close> and \<open>w in t\<close> on strings.\<close>

fun startswith :: "pystr \<Rightarrow> pystr \<Rightarrow> bool" where
  "startswith t [] = True"
| "startswith [] (c # w) = False"
| "startswith (d # t) (c # w) = (d = c \<and> startswith t w)"

fun py_in :: "pystr \<Rightarrow> pystr \<Rightarrow> bool" where
  "py_in w [] = (w = [])"
| "py_in w (d # t) = (startswith (d # t) w \<or> py_in w t)"

text \<open>\<open>any(kw in t for kw in kws)\<close>.\<close>

definition any_in :: "pystr list \<Rightarrow> pystr \<Rightarrow> bool" where
  "any_in kws t = list_ex (\<lambda>kw. py_in kw t) kws"

text \<open>\<open>str(n)\<close> for a non-negative integer.\<close>

function str_nat :: "nat \<Rightarrow> pystr" where
  "str_nat n = (if n < 10 then [48 + n] else str_nat (n div 10) @ [48 + n mod 10])"
  by pat_completeness auto
termination
  by (relation "measure id") auto

declare str_nat.simps [simp del]

section \<open>Configuration (config.py)\<close>

text \<open>\<open>TIMEOUTS\<close>, in seconds.\<close>

definition vue_load :: real where "vue_load = 3.0"
definition vue_extra_wait :: real where "vue_extra_wait = 1.0"
definition login_response :: real where "login_response = 7.0"
definition redeem_response :: real where "redeem_response = 5.0"
definition between_codes :: real where "between_codes = 3.0"
definition page_update :: real where "page_update = 3.0"
definition modal_check :: real where "modal_check = 1.0"
definition click_delay :: real where "click_delay = 0.5"
definition input_delay :: real where "input_delay = 0.3"
definition edge_init :: real where "edge_init = 1.0"
definition edge_stop :: real where "edge_stop = 0.5"
definition navigation_retry :: real where "navigation_retry = 1.0"

text \<open>\<open>RETRY_CONFIG\<close>, \<open>MAX_CODES_TO_FETCH\<close>, \<open>REDEEM_URL\<close>.\<close>

definition retry_max_attempts :: nat where "retry_max_attempts = 3"
definition retry_delay_between :: real where "retry_delay_between = 2.0"
definition retry_backoff_multiplier :: real where "retry_backoff_multiplier = 1.5"
definition MAX_CODES_TO_FETCH :: nat where "MAX_CODES_TO_FETCH = 20"
definition REDEEM_URL :: pystr where
  "REDEEM_URL = str ''https://ks-giftcode.centurygame.com/''"

text \<open>\<open>VERSION\<close>, \<open>APP_NAME\<close>, the file name parts of \<open>LOG_CONFIG\<close>, and the browser options.
  A value of \<open>CHROME_EXPERIMENTAL_OPTIONS\<close> is a list of switches or a flag.\<close>

definition VERSION :: pystr where "VERSION = str ''3.0.0''"
definition APP_NAME :: pystr where "APP_NAME = str ''Kingshot Gift Code Bot''"
definition log_file_prefix :: pystr where "log_file_prefix = str ''bot_log_''"
definition log_file_extension :: pystr where "log_file_extension = str ''.txt''"

datatype option_value = Switches "pystr list" | Flag bool

definition CHROME_OPTIONS :: "pystr list" where
  "CHROME_OPTIONS =
     [str ''--disable-blink-features=AutomationControlled'',
      str ''--window-size=1920,1080'',
      str ''--no-sandbox'',
      str ''--disable-dev-shm-usage'',
      str ''--disable-extensions'',
      str ''--disable-infobars'']"

definition CHROME_HEADLESS_OPTIONS :: "pystr list" where
  "CHROME_HEADLESS_OPTIONS =
     [str ''--headless=new'',
      str ''--headless'',
      str ''--disable-gpu'',
      str ''--window-position=-2400,-2400'']"

definition EDGE_SPECIFIC_OPTIONS :: "pystr list" where
  "EDGE_SPECIFIC_OPTIONS =
     [str ''--disable-features=msEdgeEnableNurturingFramework'',
      str ''--disable-features=msSmartScreenProtection'',
      str ''--inprivate'']"

definition CHROME_EXPERIMENTAL_OPTIONS :: "(pystr \<times> option_value) list" where
  "CHROME_EXPERIMENTAL_OPTIONS =
     [(str ''excludeSwitches'', Switches [str ''enable-automation'', str ''enable-logging'']),
      (str ''useAutomationExtension'', Flag False)]"

text \<open>\<open>SELECTORS\<close>.\<close>

definition sel_text_inputs :: pystr where "sel_text_inputs = str ''input[type='text']''"
definition sel_login_button :: pystr where "sel_login_button = str ''.login_btn''"
definition sel_exchange_button :: pystr where "sel_exchange_button = str ''.exchange_btn''"
definition sel_clickable_buttons :: "pystr list" where
  "sel_clickable_buttons =
     [str ''div[class*='btn']'', str ''div[class*='button']'', str ''button'']"
definition sel_close_buttons :: "pystr list" where
  "sel_close_buttons =
     [str ''div[class*='close']'', str ''button[class*='close']'',
      str ''div[class*='btn-close']'', str ''div[class*='modal'] button'',
      str ''div[class*='dialog'] button'']"
definition sel_mask :: pystr where "sel_mask = str ''div.mask''"
definition sel_vue_app :: pystr where "sel_vue_app = str ''#app''"

text \<open>\<open>LANGUAGE_KEYWORDS\<close>: the lists of \<open>LanguageKeywords\<close>, in the order of the source.\<close>

record LanguageKeywords =
  kw_login :: "pystr list"
  kw_confirm :: "pystr list"
  kw_already_claimed :: "pystr list"
  kw_success :: "pystr list"
  kw_error :: "pystr list"
  kw_code_placeholder :: "pystr list"

definition LANGUAGE_KEYWORDS :: LanguageKeywords where
  "LANGUAGE_KEYWORDS = \<lparr>
     kw_login =
       [str ''login'', str ''iniciar'', str ''sesion'', str ''entrar'', str ''connexion'',
        str ''anmelden'', str ''accedi'', [30331, 24405], [12525, 12464, 12452, 12531],
        str ''entrar''],
     kw_confirm =
       [str ''confirm'', str ''confirmar'', str ''confirmer'',
        str ''best'' @ [228] @ str ''tigen'', str ''conferma'', str ''exchange'',
        str ''canjear'', [233] @ str ''changer'', [30830, 35748], [20132, 25442],
        [30906, 35469], [20132, 25563], str ''trocar''],
     kw_already_claimed =
       [str ''already'', str ''claimed'', str ''received'', str ''redeemed'', str ''used'',
        str ''ya recogido'', str ''ya canjeado'', str ''ya reclamado'', str ''ya usado'',
        str ''ya obtenido'',
        str ''d'' @ [233] @ str ''j'' @ [224] @ str '' r'' @ [233] @ str ''cup'' @ [233]
          @ str ''r'' @ [233],
        str ''d'' @ [233] @ str ''j'' @ [224] @ str '' utilis'' @ [233],
        str ''d'' @ [233] @ str ''j'' @ [224] @ str '' r'' @ [233] @ str ''clam'' @ [233],
        str ''d'' @ [233] @ str ''j'' @ [224] @ str '' re'' @ [231] @ str ''u'',
        str ''bereits'', str ''schon'', str ''erhalten'',
        str ''eingel'' @ [246] @ str ''st'',
        str ''gi'' @ [224] @ str '' riscattato'', str ''gi'' @ [224] @ str '' utilizzato'',
        str ''gi'' @ [224] @ str '' rivendicato'', str ''gi'' @ [224] @ str '' ottenuto'',
        [24050, 39046, 21462], [24050, 20351, 29992], [24050, 20817, 25442],
        [24050, 33719, 24471], [26082, 12395], [12377, 12391, 12395],
        [21463, 12369, 21462, 12426, 28168, 12415], [20351, 29992, 28168, 12415],
        str ''j'' @ [225] @ str '' resgatado'', str ''j'' @ [225] @ str '' usado'',
        str ''j'' @ [225] @ str '' recebido'', str ''j'' @ [225] @ str '' obtido''],
     kw_success =
       [str ''success'', str ''successful'', str ''exitoso'', [233] @ str ''xito'',
        str ''succ'' @ [232] @ str ''s'', str ''erfolg'', str ''successo'', str ''mail'',
        str ''correo'', str ''e-mail'', str ''email'', str ''inbox'', [25104, 21151],
        [25104, 21151, 20102], [12513, 12540, 12523], [27491, 24120], str ''sucesso'',
        str ''enviado''],
     kw_error =
       [str ''error'', str ''fail'', str ''failed'', str ''invalid'', str ''expired'',
        str ''not found'', str ''no existe'', str ''inv'' @ [225] @ str ''lido'',
        str ''expirado'', str ''erreur'', str ''invalide'', str ''expir'' @ [233],
        str ''fehler'', str ''ung'' @ [252] @ str ''ltig'', str ''abgelaufen'',
        str ''errore'', str ''non valido'', str ''scaduto'', [38169, 35823],
        [22833, 36133], [28961, 21177], [26399, 38480, 20999, 12428], str ''erro'',
        str ''inv'' @ [225] @ str ''lido'', str ''expirado''],
     kw_code_placeholder =
       [str ''codigo'', str ''code'', str ''c'' @ [243] @ str ''digo'', str ''gift'',
        str ''regalo'']
   \<rparr>"

section \<open>Results and statistics (bot\_core.py)\<close>

datatype RedeemResult = SUCCESS | ALREADY_CLAIMED | FAILED | INVALID | EXPIRED

record RedeemStats =
  successful :: int
  already_claimed :: int
  failed :: int

text \<open>\<open>RedeemStats()\<close>: every counter starts at 0.\<close>

definition RedeemStats_init :: RedeemStats where
  "RedeemStats_init = \<lparr>successful = 0, already_claimed = 0, failed = 0\<rparr>"

definition total :: "RedeemStats \<Rightarrow> int" where
  "total st = successful st + already_claimed st + failed st"

definition update :: "RedeemStats \<Rightarrow> RedeemResult \<Rightarrow> RedeemStats" where
  "update st res =
     (if res = SUCCESS then st\<lparr>successful := successful st + 1\<rparr>
      else if res = ALREADY_CLAIMED then st\<lparr>already_claimed := already_claimed st + 1\<rparr>
      else st\<lparr>failed := failed st + 1\<rparr>)"

text \<open>One \<open>update\<close> call per processed code, in order.\<close>

definition tally :: "RedeemStats \<Rightarrow> RedeemResult list \<Rightarrow> RedeemStats" where
  "tally st rs = foldl update st rs"

section \<open>Exceptions, events and the state of a run\<close>

text \<open>
  The exception classes the code names or can meet. Every class but
  \<open>KeyboardInterrupt\<close> derives from \<open>Exception\<close>, so \<open>except Exception\<close> catches it.
\<close>

datatype exn =
    ElementClickInterceptedException
  | StaleElementReferenceException
  | NoSuchElementException
  | TimeoutException
  | WebDriverException
  | AttributeError
  | RequestsTimeout
  | RequestsConnectionError
  | RequestsHTTPError nat
  | OtherException
  | KeyboardInterrupt

definition is_Exception :: "exn \<Rightarrow> bool" where
  "is_Exception e = (e \<noteq> KeyboardInterrupt)"

datatype By = CSS_SELECTOR | TAG_NAME

text \<open>The scripts handed to \<open>execute_script\<close>, by what they do.\<close>

datatype script =
    JS_click
  | JS_scrollIntoView
  | JS_force_close_modals
  | JS_sessionStorage_clear
  | JS_localStorage_clear
  | JS_window_stop

type_synonym elem = nat

datatype loglevel = INFO | WARNING | ERROR | DEBUG

text \<open>
  What a run does to the outside, oldest first: log lines, sleeps, and the calls that act
  on the browser. Calls that only read the page leave no event.
\<close>

datatype event =
    Log loglevel pystr
  | Print pystr
  | Sleep real
  | Get pystr
  | Click elem
  | Clear elem
  | SendKeys elem pystr
  | ExecuteScript script "elem list"
  | DeleteAllCookies
  | Progress nat nat pystr
  | HttpGet pystr
  | StartChrome
  | Quit

datatype webdriver = WebDriver

record 'w st =
  world :: 'w
  events :: "event list"

record 'w bot = "'w st" +
  driver :: "webdriver option"
  browser_name :: pystr
  player_id :: pystr

text \<open>
  A computation either returns a value or raises, and leaves a state: \<open>Inl e\<close> is the
  exception \<open>e\<close> propagating.
\<close>

type_synonym ('s, 'a) act = "'s \<Rightarrow> (exn + 'a) \<times> 's"

definition ret :: "'a \<Rightarrow> ('s, 'a) act" where
  "ret x = (\<lambda>s. (Inr x, s))"

definition throw :: "exn \<Rightarrow> ('s, 'a) act" where
  "throw e = (\<lambda>s. (Inl e, s))"

definition bindE :: "('s, 'a) act \<Rightarrow> ('a \<Rightarrow> ('s, 'b) act) \<Rightarrow> ('s, 'b) act" where
  "bindE m f = (\<lambda>s. case m s of (Inl e, s') \<Rightarrow> (Inl e, s') | (Inr x, s') \<Rightarrow> f x s')"

definition thenE :: "('s, 'a) act \<Rightarrow> ('s, 'b) act \<Rightarrow> ('s, 'b) act" where
  "thenE m n = bindE m (\<lambda>_. n)"

text \<open>\<open>try: m except ...: h e\<close>; a handler re-raises what its clauses do not match.\<close>

definition try_except :: "('s, 'a) act \<Rightarrow> (exn \<Rightarrow> ('s, 'a) act) \<Rightarrow> ('s, 'a) act" where
  "try_except m h = (\<lambda>s. case m s of (Inl e, s') \<Rightarrow> h e s' | (Inr x, s') \<Rightarrow> (Inr x, s'))"

text \<open>\<open>try: m finally: c\<close>: \<open>c\<close> runs on every exit of \<open>m\<close>; if \<open>c\<close> raises, that wins.\<close>

definition try_finally :: "('s, 'a) act \<Rightarrow> ('s, unit) act \<Rightarrow> ('s, 'a) act" where
  "try_finally m c =
     (\<lambda>s. case m s of (r, s') \<Rightarrow>
        (case c s' of (Inl e, s'') \<Rightarrow> (Inl e, s'') | (Inr _, s'') \<Rightarrow> (r, s'')))"

text \<open>A call into the outside world, and the record of an event.\<close>

definition call :: "('w \<Rightarrow> (exn + 'a) \<times> 'w) \<Rightarrow> (('w, 'z) st_scheme, 'a) act" where
  "call f = (\<lambda>s. case f (world s) of (r, w') \<Rightarrow> (r, s\<lparr>world := w'\<rparr>))"

definition emit :: "event \<Rightarrow> (('w, 'z) st_scheme, unit) act" where
  "emit ev = (\<lambda>s. (Inr (), s\<lparr>events := events s @ [ev]\<rparr>))"

text \<open>
  \<open>self.driver.f(...)\<close>: an attribute access on \<open>None\<close> raises \<open>AttributeError\<close>.
\<close>

definition drv :: "('w \<Rightarrow> (exn + 'a) \<times> 'w) \<Rightarrow> ('w bot, 'a) act" where
  "drv f = (\<lambda>s. if driver s = None then (Inl AttributeError, s) else call f s)"

text \<open>
  The same for a call that acts on the browser: the event is recorded when the call is
  made, so not when the attribute access has already failed.
\<close>

definition drv_do :: "event \<Rightarrow> ('w \<Rightarrow> (exn + 'a) \<times> 'w) \<Rightarrow> ('w bot, 'a) act" where
  "drv_do ev f =
     (\<lambda>s. if driver s = None then (Inl AttributeError, s) else thenE (emit ev) (call f) s)"

text \<open>Reading a field of \<open>self\<close>, and a run of statements.\<close>

definition gets :: "('s \<Rightarrow> 'a) \<Rightarrow> ('s, 'a) act" where
  "gets f = (\<lambda>s. (Inr (f s), s))"

fun seqE :: "('s, unit) act list \<Rightarrow> ('s, unit) act" where
  "seqE [] = ret ()"
| "seqE (m # ms) = thenE m (seqE ms)"

definition seqE_then :: "('s, unit) act list \<Rightarrow> ('s, 'a) act \<Rightarrow> ('s, 'a) act" where
  "seqE_then ms m = thenE (seqE ms) m"

text \<open>
  The body of a loop, or a block with an early \<open>return\<close>: \<open>Return v\<close> leaves the function
  with \<open>v\<close>, \<open>Next\<close> goes on with what follows.
\<close>

datatype 'a flow = Return 'a | Next

section \<open>The outside world\<close>

text \<open>
  Selenium, the browser, the portal's page, the clock and Python's own string methods are
  not code of this repository: they are a parameter. Each call takes the world as it is
  and gives a result (or an exception) and the world as it has become. The theorems hold
  for every such behaviour that meets their hypotheses.
\<close>

record 'w browser =
  drv_get :: "pystr \<Rightarrow> 'w \<Rightarrow> (exn + unit) \<times> 'w"
  drv_current_url :: "'w \<Rightarrow> (exn + pystr) \<times> 'w"
  drv_find_elements :: "By \<Rightarrow> pystr \<Rightarrow> 'w \<Rightarrow> (exn + elem list) \<times> 'w"
  drv_find_element :: "By \<Rightarrow> pystr \<Rightarrow> 'w \<Rightarrow> (exn + elem) \<times> 'w"
  drv_execute_script :: "script \<Rightarrow> elem list \<Rightarrow> 'w \<Rightarrow> (exn + unit) \<times> 'w"
  drv_page_source :: "'w \<Rightarrow> (exn + pystr) \<times> 'w"
  drv_delete_all_cookies :: "'w \<Rightarrow> (exn + unit) \<times> 'w"
  drv_quit :: "'w \<Rightarrow> (exn + unit) \<times> 'w"
  wait_until_text :: "By \<Rightarrow> pystr \<Rightarrow> 'w \<Rightarrow> (exn + unit) \<times> 'w"
  el_click :: "elem \<Rightarrow> 'w \<Rightarrow> (exn + unit) \<times> 'w"
  el_is_displayed :: "elem \<Rightarrow> 'w \<Rightarrow> (exn + bool) \<times> 'w"
  el_text :: "elem \<Rightarrow> 'w \<Rightarrow> (exn + pystr) \<times> 'w"
  el_get_attribute :: "elem \<Rightarrow> pystr \<Rightarrow> 'w \<Rightarrow> (exn + pystr option) \<times> 'w"
  el_clear :: "elem \<Rightarrow> 'w \<Rightarrow> (exn + unit) \<times> 'w"
  el_send_keys :: "elem \<Rightarrow> pystr \<Rightarrow> 'w \<Rightarrow> (exn + unit) \<times> 'w"
  time_sleep :: "real \<Rightarrow> 'w \<Rightarrow> (exn + unit) \<times> 'w"
  str_lower :: "pystr \<Rightarrow> pystr"
  str_strip :: "pystr \<Rightarrow> pystr"
  exn_str :: "exn \<Rightarrow> pystr"
  format_exc :: "exn \<Rightarrow> pystr"

text \<open>\<open>time.sleep(d)\<close>.\<close>

definition sleep :: "'w browser \<Rightarrow> real \<Rightarrow> (('w, 'z) st_scheme, unit) act" where
  "sleep E d = thenE (emit (Sleep d)) (call (time_sleep E d))"

section \<open>BotLogger\<close>

text \<open>
  \<open>_log\<close> formats \<open>prefix + ' ' + msg\<close> and hands the line to the logger method of the
  level and to the callback; the model keeps the level and the line.
\<close>

definition log_line :: "loglevel \<Rightarrow> string \<Rightarrow> pystr \<Rightarrow> (('w, 'z) st_scheme, unit) act" where
  "log_line level prefix msg = emit (Log level (str prefix @ str '' '' @ msg))"

definition log_info :: "pystr \<Rightarrow> (('w, 'z) st_scheme, unit) act" where
  "log_info msg = log_line INFO ''[*]'' msg"

definition log_success :: "pystr \<Rightarrow> (('w, 'z) st_scheme, unit) act" where
  "log_success msg = log_line INFO ''[+]'' msg"

definition log_error :: "pystr \<Rightarrow> (('w, 'z) st_scheme, unit) act" where
  "log_error msg = log_line ERROR ''[ERROR]'' msg"

definition log_warning :: "pystr \<Rightarrow> (('w, 'z) st_scheme, unit) act" where
  "log_warning msg = log_line WARNING ''[!]'' msg"

definition log_debug :: "pystr \<Rightarrow> (('w, 'z) st_scheme, unit) act" where
  "log_debug msg = log_line DEBUG ''[DEBUG]'' msg"

definition log_section :: "pystr \<Rightarrow> (('w, 'z) st_scheme, unit) act" where
  "log_section title =
     thenE (emit (Log INFO []))
       (thenE (emit (Log INFO (replicate 60 (of_char CHR ''=''))))
          (thenE (emit (Log INFO title))
             (emit (Log INFO (replicate 60 (of_char CHR ''=''))))))"

section \<open>The result classifier\<close>

definition analyze_result :: "'w browser \<Rightarrow> pystr \<Rightarrow> ('w bot, RedeemResult) act" where
  "analyze_result E code =
     bindE (drv (drv_page_source E)) (\<lambda>page_source.
       let page_text = str_lower E page_source in
       thenE (log_debug (str ''Page content preview: '' @ take 500 page_text))
         (if any_in (kw_already_claimed LANGUAGE_KEYWORDS) page_text then
            thenE (log_warning (str ''Code '' @ code @ str '' was already claimed previously''))
              (ret ALREADY_CLAIMED)
          else if any_in (kw_success LANGUAGE_KEYWORDS) page_text then
            thenE (log_success (str ''Code '' @ code @ str '' redeemed successfully!''))
              (ret SUCCESS)
          else if any_in (kw_error LANGUAGE_KEYWORDS) page_text then
            thenE (log_error (str ''Error redeeming code '' @ code))
              (ret FAILED)
          else
            thenE (log_warning (str ''Could not determine result for code '' @ code
                     @ str '' - marking as failed''))
              (ret FAILED)))"

section \<open>Element lookup and clicks (KingshotBotHeadless)\<close>

definition click :: "'w browser \<Rightarrow> elem \<Rightarrow> (('w, 'z) st_scheme, unit) act" where
  "click E element = thenE (emit (Click element)) (call (el_click E element))"

definition clear :: "'w browser \<Rightarrow> elem \<Rightarrow> (('w, 'z) st_scheme, unit) act" where
  "clear E element = thenE (emit (Clear element)) (call (el_clear E element))"

definition send_keys :: "'w browser \<Rightarrow> elem \<Rightarrow> pystr \<Rightarrow> (('w, 'z) st_scheme, unit) act" where
  "send_keys E element keys = thenE (emit (SendKeys element keys)) (call (el_send_keys E element keys))"

definition execute_script :: "'w browser \<Rightarrow> script \<Rightarrow> elem list \<Rightarrow> ('w bot, unit) act" where
  "execute_script E js args = drv_do (ExecuteScript js args) (drv_execute_script E js args)"

definition find_elements_safe :: "'w browser \<Rightarrow> By \<Rightarrow> pystr \<Rightarrow> ('w bot, elem list) act" where
  "find_elements_safe E how v =
     try_except (drv (drv_find_elements E how v))
       (\<lambda>e. if e = NoSuchElementException \<or> e = StaleElementReferenceException then ret []
            else throw e)"

definition find_element_safe :: "'w browser \<Rightarrow> By \<Rightarrow> pystr \<Rightarrow> ('w bot, elem option) act" where
  "find_element_safe E how v =
     try_except (bindE (drv (drv_find_element E how v)) (\<lambda>element. ret (Some element)))
       (\<lambda>e. if e = NoSuchElementException \<or> e = StaleElementReferenceException then ret None
            else throw e)"

definition max_attempts :: nat where
  "max_attempts = 3"

text \<open>One pass of the loop of \<open>_click_element_safe\<close>.\<close>

definition click_attempt :: "'w browser \<Rightarrow> elem \<Rightarrow> nat \<Rightarrow> ('w bot, bool flow) act" where
  "click_attempt E element attempt =
     try_except
       (thenE (click E element) (ret (Return True)))
       (\<lambda>e.
          if e = ElementClickInterceptedException then
            thenE (log_debug (str ''Click intercepted, attempt '' @ str_nat (attempt + 1)
                     @ str ''/'' @ str_nat max_attempts))
              (thenE (sleep E click_delay)
                 (if attempt = max_attempts - 1 then
                    try_except
                      (thenE (execute_script E JS_click [element]) (ret (Return True)))
                      (\<lambda>e'. if is_Exception e' then ret Next else throw e')
                  else ret Next))
          else if e = StaleElementReferenceException then
            thenE (log_debug (str ''Element became stale'')) (ret (Return False))
          else if is_Exception e then
            thenE (log_debug (str ''Click error: '' @ exn_str E e)) (ret (Return False))
          else throw e)"

fun click_attempts :: "'w browser \<Rightarrow> elem \<Rightarrow> nat list \<Rightarrow> ('w bot, bool) act" where
  "click_attempts E element [] = ret False"
| "click_attempts E element (attempt # rest) =
     bindE (click_attempt E element attempt)
       (\<lambda>r. case r of Return b \<Rightarrow> ret b | Next \<Rightarrow> click_attempts E element rest)"

definition click_element_safe :: "'w browser \<Rightarrow> elem \<Rightarrow> ('w bot, bool) act" where
  "click_element_safe E element = click_attempts E element [0..<max_attempts]"

definition is_element_visible :: "'w browser \<Rightarrow> elem \<Rightarrow> ('w bot, bool) act" where
  "is_element_visible E element =
     try_except (call (el_is_displayed E element))
       (\<lambda>e. if e = StaleElementReferenceException then ret False else throw e)"

text \<open>\<open>_find_all_clickables\<close>: the inner loop over the elements of one selector, then the
  loop over \<open>SELECTORS.clickable_buttons\<close>.\<close>

fun displayed_elems :: "'w browser \<Rightarrow> elem list \<Rightarrow> elem list \<Rightarrow> ('w bot, elem list) act" where
  "displayed_elems E [] clickables = ret clickables"
| "displayed_elems E (el # els) clickables =
     bindE
       (try_except
          (bindE (call (el_is_displayed E el))
             (\<lambda>shown. ret (if shown then clickables @ [el] else clickables)))
          (\<lambda>e. if e = StaleElementReferenceException then ret clickables else throw e))
       (\<lambda>clickables'. displayed_elems E els clickables')"

fun clickables_of :: "'w browser \<Rightarrow> pystr list \<Rightarrow> elem list \<Rightarrow> ('w bot, elem list) act" where
  "clickables_of E [] clickables = ret clickables"
| "clickables_of E (selector # rest) clickables =
     bindE (find_elements_safe E CSS_SELECTOR selector) (\<lambda>elements.
       bindE (displayed_elems E elements clickables) (\<lambda>clickables'.
         clickables_of E rest clickables'))"

definition find_all_clickables :: "'w browser \<Rightarrow> ('w bot, elem list) act" where
  "find_all_clickables E = clickables_of E sel_clickable_buttons []"

text \<open>\<open>_find_button_by_keywords\<close>: the loop of method 2, then the function.\<close>

fun button_by_text :: "'w browser \<Rightarrow> pystr list \<Rightarrow> elem list \<Rightarrow> ('w bot, elem option) act" where
  "button_by_text E keywords [] = ret None"
| "button_by_text E keywords (el # els) =
     bindE
       (try_except
          (bindE (call (el_text E el)) (\<lambda>raw.
             let text = str_lower E (str_strip E raw) in
             if text \<noteq> [] \<and> any_in keywords text then
               bindE (call (el_get_attribute E el (str ''class''))) (\<lambda>a.
                 let class_attr = (case a of None \<Rightarrow> [] | Some c \<Rightarrow> c) in
                 if \<not> py_in (str ''disabled'') (str_lower E class_attr) then
                   bindE (call (el_text E el)) (\<lambda>shown_text.
                     thenE (log_success (str ''Button found by text: '' @ [39] @ shown_text @ [39]))
                       (ret (Return (Some el))))
                 else ret Next)
             else ret Next))
          (\<lambda>e. if e = StaleElementReferenceException then ret Next else throw e))
       (\<lambda>r. case r of Return found \<Rightarrow> ret found | Next \<Rightarrow> button_by_text E keywords els)"

definition find_button_by_keywords ::
  "'w browser \<Rightarrow> pystr list \<Rightarrow> pystr option \<Rightarrow> ('w bot, elem option) act" where
  "find_button_by_keywords E keywords css_selector =
     bindE
       (case css_selector of
          None \<Rightarrow> ret Next
        | Some selector \<Rightarrow>
            if selector = [] then ret Next
            else
              bindE (find_element_safe E CSS_SELECTOR selector) (\<lambda>button.
                case button of
                  None \<Rightarrow> ret Next
                | Some b \<Rightarrow>
                    bindE (call (el_is_displayed E b)) (\<lambda>shown.
                      if shown then
                        bindE (call (el_text E b)) (\<lambda>shown_text.
                          thenE (log_success (str ''Button found by selector: '' @ [39]
                                   @ shown_text @ [39]))
                            (ret (Return (Some b))))
                      else ret Next)))
       (\<lambda>r. case r of
          Return found \<Rightarrow> ret found
        | Next \<Rightarrow>
            bindE (find_all_clickables E) (\<lambda>clickables.
              thenE (log_info (str ''Searching '' @ str_nat (length clickables)
                       @ str '' clickable elements...''))
                (button_by_text E keywords clickables)))"

text \<open>\<open>_find_input_field\<close>: the list comprehension over \<open>_is_element_visible\<close>, the loop over
  \<open>maxlength\<close>, the loop over the placeholder, then the function.\<close>

fun visible_of :: "'w browser \<Rightarrow> elem list \<Rightarrow> ('w bot, elem list) act" where
  "visible_of E [] = ret []"
| "visible_of E (inp # rest) =
     bindE (is_element_visible E inp) (\<lambda>shown.
       bindE (visible_of E rest) (\<lambda>others.
         ret (if shown then inp # others else others)))"

fun by_maxlength :: "'w browser \<Rightarrow> pystr \<Rightarrow> elem list \<Rightarrow> ('w bot, elem flow) act" where
  "by_maxlength E maxlength [] = ret Next"
| "by_maxlength E maxlength (inp # rest) =
     bindE (call (el_get_attribute E inp (str ''maxlength''))) (\<lambda>a.
       if a = Some maxlength then
         thenE (log_success (str ''Field found by maxlength='' @ maxlength)) (ret (Return inp))
       else by_maxlength E maxlength rest)"

definition placeholder_keywords :: "pystr \<Rightarrow> pystr list" where
  "placeholder_keywords field_type =
     (if field_type = str ''code'' then kw_code_placeholder LANGUAGE_KEYWORDS
      else [str ''player'', str ''id'', str ''jugador''])"

fun by_placeholder :: "'w browser \<Rightarrow> pystr \<Rightarrow> elem list \<Rightarrow> ('w bot, elem flow) act" where
  "by_placeholder E field_type [] = ret Next"
| "by_placeholder E field_type (inp # rest) =
     bindE (call (el_get_attribute E inp (str ''placeholder''))) (\<lambda>a.
       let placeholder = str_lower E (case a of None \<Rightarrow> [] | Some p \<Rightarrow> p);
           keywords = placeholder_keywords field_type
       in
         if any_in keywords placeholder then
           thenE (log_success (str ''Field found by placeholder: '' @ [39] @ placeholder @ [39]))
             (ret (Return inp))
         else by_placeholder E field_type rest)"

definition find_input_field ::
  "'w browser \<Rightarrow> pystr \<Rightarrow> pystr option \<Rightarrow> ('w bot, elem option) act" where
  "find_input_field E field_type maxlength =
     bindE (find_elements_safe E CSS_SELECTOR sel_text_inputs) (\<lambda>typed.
     bindE (if typed = [] then
              bindE (find_elements_safe E TAG_NAME (str ''input'')) (\<lambda>all_inputs.
                visible_of E all_inputs)
            else ret typed) (\<lambda>inputs.
     bindE (visible_of E inputs) (\<lambda>visible_inputs.
     thenE (log_info (str ''Found '' @ str_nat (length visible_inputs)
              @ str '' visible input fields''))
       (bindE (case maxlength of
                 None \<Rightarrow> ret Next
               | Some m \<Rightarrow> if m = [] then ret Next else by_maxlength E m visible_inputs) (\<lambda>r1.
          case r1 of
            Return inp \<Rightarrow> ret (Some inp)
          | Next \<Rightarrow>
              bindE (by_placeholder E field_type visible_inputs) (\<lambda>r2.
                case r2 of
                  Return inp \<Rightarrow> ret (Some inp)
                | Next \<Rightarrow>
                    (case visible_inputs of
                       [] \<Rightarrow> ret None
                     | first # _ \<Rightarrow>
                         thenE (log_warning (str ''Using first visible input field''))
                           (ret (Some first)))))))))"


section \<open>Modal dismissal, login and redemption (KingshotBotHeadless)\<close>

definition get :: "'w browser \<Rightarrow> pystr \<Rightarrow> ('w bot, unit) act" where
  "get E url = drv_do (Get url) (drv_get E url)"

definition clear_browser_state :: "'w browser \<Rightarrow> ('w bot, unit) act" where
  "clear_browser_state E =
     bindE (gets browser_name) (\<lambda>name.
       if name = str ''Edge'' then
         try_except
           (seqE [drv_do DeleteAllCookies (drv_delete_all_cookies E),
                  execute_script E JS_sessionStorage_clear [],
                  execute_script E JS_localStorage_clear [],
                  sleep E edge_stop])
           (\<lambda>e. if is_Exception e then
                  log_debug (str ''Could not clear browser state: '' @ exn_str E e)
                else throw e)
       else ret ())"

text \<open>\<open>dismiss_modal\<close>, method 1: the loop over the buttons of one selector, then the loop
  over \<open>SELECTORS.close_buttons\<close>.\<close>

fun close_with_buttons :: "'w browser \<Rightarrow> elem list \<Rightarrow> ('w bot, bool flow) act" where
  "close_with_buttons E [] = ret Next"
| "close_with_buttons E (btn # rest) =
     bindE (is_element_visible E btn) (\<lambda>shown.
       if shown then
         bindE (call (el_text E btn)) (\<lambda>label.
           thenE (log_info (str ''Found close button: ''
                    @ (if label = [] then str ''no text'' else label)))
             (bindE (click_element_safe E btn) (\<lambda>clicked.
                if clicked then
                  seqE_then [sleep E modal_check, log_success (str ''Modal closed with button'')]
                    (ret (Return True))
                else close_with_buttons E rest)))
       else close_with_buttons E rest)"

fun close_with_selectors :: "'w browser \<Rightarrow> pystr list \<Rightarrow> ('w bot, bool flow) act" where
  "close_with_selectors E [] = ret Next"
| "close_with_selectors E (selector # rest) =
     bindE (find_elements_safe E CSS_SELECTOR selector) (\<lambda>buttons.
       bindE (close_with_buttons E buttons) (\<lambda>r.
         case r of Return b \<Rightarrow> ret (Return b) | Next \<Rightarrow> close_with_selectors E rest))"

text \<open>Method 2, the background mask, and method 3, the script.\<close>

definition close_with_mask :: "'w browser \<Rightarrow> ('w bot, bool flow) act" where
  "close_with_mask E =
     bindE (find_element_safe E CSS_SELECTOR sel_mask) (\<lambda>mask.
       case mask of
         None \<Rightarrow> ret Next
       | Some m \<Rightarrow>
           bindE (is_element_visible E m) (\<lambda>shown.
             if shown then
               thenE (log_info (str ''Clicking background mask...''))
                 (bindE (click_element_safe E m) (\<lambda>clicked.
                    if clicked then
                      seqE_then [sleep E modal_check,
                                 log_success (str ''Modal closed by clicking mask'')]
                        (ret (Return True))
                    else ret Next))
             else ret Next))"

definition close_with_script :: "'w browser \<Rightarrow> ('w bot, bool flow) act" where
  "close_with_script E =
     try_except
       (seqE_then [execute_script E JS_force_close_modals [],
                   log_success (str ''Modal force-closed with JavaScript''),
                   sleep E modal_check]
          (ret (Return True)))
       (\<lambda>e. if is_Exception e then ret Next else throw e)"

definition dismiss_modal :: "'w browser \<Rightarrow> ('w bot, bool) act" where
  "dismiss_modal E =
     try_except
       (seqE_then [log_info (str ''Checking for active modal...''), sleep E modal_check]
          (bindE (close_with_selectors E sel_close_buttons) (\<lambda>r1.
             case r1 of
               Return b \<Rightarrow> ret b
             | Next \<Rightarrow>
                 bindE (close_with_mask E) (\<lambda>r2.
                   case r2 of
                     Return b \<Rightarrow> ret b
                   | Next \<Rightarrow>
                       bindE (close_with_script E) (\<lambda>r3.
                         case r3 of
                           Return b \<Rightarrow> ret b
                         | Next \<Rightarrow>
                             thenE (log_info (str ''No active modal found'')) (ret False))))))
       (\<lambda>e. if is_Exception e then
              thenE (log_warning (str ''Error closing modal: '' @ exn_str E e)) (ret False)
            else throw e)"

definition wait_for_vue :: "'w browser \<Rightarrow> ('w bot, bool) act" where
  "wait_for_vue E =
     thenE (log_info (str ''Waiting for Vue.js to load...''))
       (try_except
          (seqE_then [sleep E vue_load,
                      call (wait_until_text E CSS_SELECTOR sel_vue_app),
                      sleep E vue_extra_wait,
                      log_success (str ''Vue.js loaded successfully'')]
             (ret True))
          (\<lambda>e. if e = TimeoutException then
                 thenE (log_error (str ''Vue.js failed to load within timeout'')) (ret False)
               else throw e))"

text \<open>\<open>login\<close>: the statements inside its \<open>try\<close>, then the function.\<close>

definition login_steps :: "'w browser \<Rightarrow> ('w bot, bool) act" where
  "login_steps E =
     bindE (wait_for_vue E) (\<lambda>loaded.
       if \<not> loaded then ret False
       else
         thenE (log_info (str ''Looking for Player ID field...''))
           (bindE (find_input_field E (str ''player_id'') None) (\<lambda>player_id_field.
              case player_id_field of
                None \<Rightarrow> thenE (log_error (str ''Player ID field not found'')) (ret False)
              | Some field \<Rightarrow>
                  bindE (call (el_get_attribute E field (str ''placeholder''))) (\<lambda>a.
                  bindE (gets player_id) (\<lambda>pid.
                    seqE_then
                      [log_success (str ''Field found: '' @ [39]
                         @ (case a of None \<Rightarrow> [] | Some p \<Rightarrow> p) @ [39]),
                       log_info (str ''Entering Player ID: '' @ pid),
                       click E field,
                       sleep E click_delay,
                       clear E field,
                       send_keys E field pid,
                       sleep E click_delay,
                       log_success (str ''Player ID entered successfully''),
                       log_info (str ''Looking for login button...'')]
                      (bindE (find_button_by_keywords E (kw_login LANGUAGE_KEYWORDS)
                                (Some sel_login_button)) (\<lambda>login_button.
                         case login_button of
                           None \<Rightarrow> thenE (log_error (str ''Login button not found'')) (ret False)
                         | Some button \<Rightarrow>
                             thenE (log_info (str ''Clicking login button...''))
                               (bindE (click_element_safe E button) (\<lambda>clicked.
                                  if \<not> clicked then
                                    thenE (log_error (str ''Failed to click login button''))
                                      (ret False)
                                  else
                                    seqE_then
                                      [log_success (str ''Click performed''),
                                       log_info (str ''Waiting for server response (7.0s)...''),
                                       sleep E login_response,
                                       log_success (str ''Login completed successfully'')]
                                      (ret True))))))))))"

definition login :: "'w browser \<Rightarrow> ('w bot, bool) act" where
  "login E =
     seqE_then
       [log_info (str ''Opening '' @ REDEEM_URL),
        clear_browser_state E,
        get E REDEEM_URL,
        sleep E navigation_retry]
       (bindE (drv (drv_current_url E)) (\<lambda>current_url.
          thenE (log_info (str ''Current URL: '' @ current_url))
            (thenE
               (if py_in (str ''data:'') current_url \<or> current_url = str ''about:blank'' then
                  seqE_then
                    [log_warning (str ''Navigation failed, retrying...''),
                     sleep E navigation_retry,
                     get E REDEEM_URL,
                     sleep E navigation_retry]
                    (bindE (drv (drv_current_url E)) (\<lambda>url_after.
                       log_info (str ''URL after retry: '' @ url_after)))
                else ret ())
               (try_except (login_steps E)
                  (\<lambda>e. if is_Exception e then
                         seqE_then
                           [log_error (str ''Login error: '' @ exn_str E e),
                            log_debug (format_exc E e)]
                           (ret False)
                       else throw e)))))"

text \<open>
  \<open>redeem_code\<close>. \<open>report_progress\<close> counts its own calls in \<open>current_step\<close>; the calls
  stand in program order with nothing between them that repeats, so the k-th call passes
  step k, which the model writes as an argument.
\<close>

type_synonym 'w progress_callback = "nat \<Rightarrow> nat \<Rightarrow> pystr \<Rightarrow> 'w \<Rightarrow> (exn + unit) \<times> 'w"

definition total_steps :: nat where
  "total_steps = 7"

definition report_progress ::
  "'w progress_callback option \<Rightarrow> nat \<Rightarrow> pystr \<Rightarrow> ('w bot, unit) act" where
  "report_progress progress_callback current_step description =
     (case progress_callback of
        None \<Rightarrow> ret ()
      | Some f \<Rightarrow>
          thenE (emit (Progress current_step total_steps description))
            (call (f current_step total_steps description)))"

text \<open>The statements inside the \<open>try\<close> of \<open>redeem_code\<close>.\<close>

definition redeem_steps ::
  "'w browser \<Rightarrow> pystr \<Rightarrow> 'w progress_callback option \<Rightarrow> ('w bot, RedeemResult) act" where
  "redeem_steps E code cb =
     seqE_then
       [report_progress cb 1 (str ''Waiting for page update''),
        log_info (str ''Waiting for page update...''),
        sleep E page_update,
        report_progress cb 2 (str ''Finding gift code field''),
        log_info (str ''Looking for Gift Code field...'')]
       (bindE (find_input_field E (str ''code'') (Some (str ''20''))) (\<lambda>gift_code_field.
          case gift_code_field of
            None \<Rightarrow> thenE (log_error (str ''Gift Code field not found'')) (ret FAILED)
          | Some field \<Rightarrow>
              seqE_then
                [report_progress cb 3 (str ''Entering code: '' @ code),
                 log_info (str ''Entering code: '' @ code),
                 execute_script E JS_scrollIntoView [field],
                 sleep E click_delay,
                 click E field,
                 sleep E click_delay,
                 clear E field,
                 sleep E input_delay,
                 send_keys E field code,
                 sleep E modal_check,
                 log_success (str ''Code entered successfully''),
                 report_progress cb 4 (str ''Finding confirm button''),
                 log_info (str ''Looking for confirm button...'')]
                (bindE (find_button_by_keywords E (kw_confirm LANGUAGE_KEYWORDS)
                          (Some sel_exchange_button)) (\<lambda>confirm_button.
                   case confirm_button of
                     None \<Rightarrow> thenE (log_error (str ''Confirm button not found'')) (ret FAILED)
                   | Some button \<Rightarrow>
                       seqE_then
                         [report_progress cb 5 (str ''Clicking confirm button''),
                          log_info (str ''Clicking confirm button...'')]
                         (bindE (click_element_safe E button) (\<lambda>clicked.
                            if \<not> clicked then
                              thenE (log_error (str ''Failed to click confirm button''))
                                (ret FAILED)
                            else
                              seqE_then
                                [log_success (str ''Click performed''),
                                 report_progress cb 6 (str ''Waiting for server response''),
                                 log_info (str ''Waiting for server response (5.0s)...''),
                                 sleep E redeem_response,
                                 report_progress cb 7 (str ''Analyzing result'')]
                                (bindE (analyze_result E code) (\<lambda>result.
                                   thenE (dismiss_modal E) (ret result)))))))))"

definition redeem_code ::
  "'w browser \<Rightarrow> pystr \<Rightarrow> 'w progress_callback option \<Rightarrow> ('w bot, RedeemResult) act" where
  "redeem_code E code cb =
     thenE (log_section (str ''REDEEMING CODE: '' @ code))
       (try_except (redeem_steps E code cb)
          (\<lambda>e. if is_Exception e then
                 seqE_then
                   [log_error (str ''Redemption error: '' @ exn_str E e),
                    log_debug (format_exc E e)]
                   (ret FAILED)
               else throw e))"

text \<open>\<open>close\<close>: \<open>self.driver = None\<close> stands after \<open>quit()\<close> inside the \<open>try\<close>.\<close>

definition set_driver :: "webdriver option \<Rightarrow> ('w bot, unit) act" where
  "set_driver d = (\<lambda>s. (Inr (), s\<lparr>driver := d\<rparr>))"

definition close :: "'w browser \<Rightarrow> ('w bot, unit) act" where
  "close E =
     thenE (log_info (str ''Closing browser...''))
       (try_except
          (thenE
             (bindE (gets driver) (\<lambda>d.
                case d of
                  None \<Rightarrow> ret ()
                | Some _ \<Rightarrow> thenE (drv_do Quit (drv_quit E)) (set_driver None)))
             (log_success (str ''Browser closed successfully'')))
          (\<lambda>e. if is_Exception e then
                 log_debug (str ''Error closing browser: '' @ exn_str E e)
               else throw e))"

section \<open>Construction of the bot (KingshotBotHeadless)\<close>

text \<open>
  What the constructor needs from outside, again as a parameter: the clock that stamps the
  log file's name, the opening of that file, the directory for temporary files and the
  joining of a path, and Selenium's \<open>webdriver.Chrome(options=options)\<close>, which starts the
  browser and gives the driver. A \<open>ChromeOptions\<close> object is the list of the calls made on
  it, in their order.
\<close>

datatype options_call =
    Binary_location pystr
  | Add_argument pystr
  | Add_experimental_option pystr option_value

type_synonym ChromeOptions = "options_call list"

record 'w runtime =
  now_strftime :: "'w \<Rightarrow> (exn + pystr) \<times> 'w"
  logging_FileHandler :: "pystr \<Rightarrow> 'w \<Rightarrow> (exn + unit) \<times> 'w"
  tempfile_gettempdir :: "'w \<Rightarrow> (exn + pystr) \<times> 'w"
  os_path_join :: "pystr \<Rightarrow> pystr \<Rightarrow> pystr"
  webdriver_Chrome :: "ChromeOptions \<Rightarrow> 'w \<Rightarrow> (exn + webdriver) \<times> 'w"

text \<open>
  \<open>BotLogger.setup\<close>: the name of the log file, the file handler, and the five header
  lines, which go to the logger as they are. The value is the file's name.
\<close>

definition BotLogger_setup :: "'w runtime \<Rightarrow> pystr \<Rightarrow> ('w bot, pystr) act" where
  "BotLogger_setup L pid =
     bindE (call (now_strftime L)) (\<lambda>timestamp.
       let log_filename = log_file_prefix @ timestamp @ log_file_extension in
       thenE (call (logging_FileHandler L log_filename))
         (seqE_then
            [emit (Log INFO (replicate 70 (of_char CHR ''=''))),
             emit (Log INFO (APP_NAME @ str '' v'' @ VERSION)),
             emit (Log INFO (replicate 70 (of_char CHR ''=''))),
             emit (Log INFO (str ''Log file: '' @ log_filename)),
             emit (Log INFO (str ''Player ID: '' @ pid))]
            (ret log_filename)))"

text \<open>\<open>_configure_edge_options\<close>; the value is the options object after its calls.\<close>

definition configure_edge_options :: "'w runtime \<Rightarrow> ChromeOptions \<Rightarrow> ('w bot, ChromeOptions) act" where
  "configure_edge_options L options =
     bindE (call (tempfile_gettempdir L)) (\<lambda>temp_dir.
       let edge_profile = os_path_join L temp_dir (str ''edge-selenium-profile'') in
       ret (options
            @ [Add_argument (str ''--user-data-dir='' @ edge_profile),
               Add_argument (str ''--profile-directory=Default'')]
            @ map Add_argument EDGE_SPECIFIC_OPTIONS))"

text \<open>\<open>_initialize_edge\<close>: its \<open>except Exception\<close> lets an interrupt of its sleeps through.\<close>

definition initialize_edge :: "'w browser \<Rightarrow> ('w bot, unit) act" where
  "initialize_edge E =
     try_except
       (seqE [get E (str ''about:blank''),
              sleep E edge_init,
              execute_script E JS_window_stop [],
              sleep E edge_stop])
       (\<lambda>e. if is_Exception e then
              log_debug (str ''Edge initialization note: '' @ exn_str E e)
            else throw e)"

text \<open>
  \<open>except WebDriverException\<close> catches Selenium's exceptions, which all derive from that
  class, and nothing else.
\<close>

definition is_WebDriverException :: "exn \<Rightarrow> bool" where
  "is_WebDriverException e =
     (e = ElementClickInterceptedException \<or> e = StaleElementReferenceException
      \<or> e = NoSuchElementException \<or> e = TimeoutException \<or> e = WebDriverException)"

text \<open>
  \<open>_initialize_driver\<close>. \<open>self.headless\<close> and \<open>self.browser_path\<close> are read nowhere else and
  stay arguments. \<open>self.driver\<close> is assigned when \<open>webdriver.Chrome\<close> has returned, so the
  browser is running from then on; \<open>WebDriverWait(...)\<close> only builds the object behind
  \<open>wait_until_text\<close>. The handler logs and raises the exception again.
\<close>

definition initialize_driver ::
  "'w browser \<Rightarrow> 'w runtime \<Rightarrow> bool \<Rightarrow> pystr option \<Rightarrow> ('w bot, unit) act" where
  "initialize_driver E L headless browser_path =
     bindE (case browser_path of
              None \<Rightarrow> ret []
            | Some path \<Rightarrow>
                if path = [] then ret []
                else
                  bindE (gets browser_name) (\<lambda>name.
                    thenE (log_info (str ''Using '' @ name @ str '' browser: '' @ path))
                      (if name = str ''Edge'' then
                         configure_edge_options L [Binary_location path]
                       else ret [Binary_location path]))) (\<lambda>options1.
     bindE (if headless then
              thenE (log_info (str ''Headless mode enabled (INVISIBLE browser)''))
                (ret (options1 @ map Add_argument CHROME_HEADLESS_OPTIONS))
            else thenE (log_info (str ''Visible mode enabled'')) (ret options1)) (\<lambda>options2.
     let options =
           options2 @ map Add_argument CHROME_OPTIONS
           @ map (\<lambda>(key, v). Add_experimental_option key v) CHROME_EXPERIMENTAL_OPTIONS
     in
       thenE (log_info (str ''Starting ChromeDriver...''))
         (try_except
            (bindE (thenE (emit StartChrome) (call (webdriver_Chrome L options))) (\<lambda>d.
               seqE [set_driver (Some d),
                     log_success (str ''ChromeDriver started successfully''),
                     bindE (gets browser_name) (\<lambda>name.
                       if name = str ''Edge'' then initialize_edge E else ret ())]))
            (\<lambda>e. if is_WebDriverException e then
                   thenE (log_error (str ''Failed to start ChromeDriver: '' @ exn_str E e))
                     (throw e)
                 else throw e))))"

text \<open>
  \<open>__init__\<close>. The state holds the fields of the object being built; \<open>browser_name or
  'Chrome'\<close> takes \<open>'Chrome'\<close> for \<open>None\<close> and for the empty string.
\<close>

definition set_identity :: "pystr \<Rightarrow> pystr \<Rightarrow> ('w bot, unit) act" where
  "set_identity pid name = (\<lambda>s. (Inr (), s\<lparr>player_id := pid, browser_name := name\<rparr>))"

definition KingshotBotHeadless ::
  "'w browser \<Rightarrow> 'w runtime \<Rightarrow> pystr \<Rightarrow> bool \<Rightarrow> pystr option \<Rightarrow> pystr option
     \<Rightarrow> ('w bot, unit) act" where
  "KingshotBotHeadless E L pid headless browser_path name =
     seqE [set_identity pid
             (case name of
                None \<Rightarrow> str ''Chrome''
              | Some n \<Rightarrow> if n = [] then str ''Chrome'' else n),
           thenE (BotLogger_setup L pid) (ret ()),
           set_driver None,
           initialize_driver E L headless browser_path]"

section \<open>The command-line run (bot.py)\<close>

text \<open>\<open>str(i)\<close> for an integer.\<close>

definition str_int :: "int \<Rightarrow> pystr" where
  "str_int i = (if i < 0 then 45 # str_nat (nat (- i)) else str_nat (nat i))"

text \<open>
  The loop of \<open>run_cli\<close> over \<open>enumerate(codes, 1)\<close>: \<open>n\<close> is \<open>len(codes)\<close>, \<open>i\<close> the index
  of the first code of the list still to do, and the three local counters travel as a
  \<open>RedeemStats\<close>.
\<close>

fun redeem_loop ::
  "'w browser \<Rightarrow> nat \<Rightarrow> nat \<Rightarrow> pystr list \<Rightarrow> RedeemStats \<Rightarrow> ('w bot, RedeemStats) act" where
  "redeem_loop E n i [] counts = ret counts"
| "redeem_loop E n i (code # rest) counts =
     bindE (redeem_code E code None) (\<lambda>result.
       let counts' =
             (if result = SUCCESS then counts\<lparr>successful := successful counts + 1\<rparr>
              else if result = ALREADY_CLAIMED then
                counts\<lparr>already_claimed := already_claimed counts + 1\<rparr>
              else counts\<lparr>failed := failed counts + 1\<rparr>)
       in thenE (if i < n then sleep E between_codes else ret ())
            (redeem_loop E n (i + 1) rest counts'))"

definition print_summary :: "RedeemStats \<Rightarrow> ('w bot, unit) act" where
  "print_summary counts =
     seqE
       [emit (Print []),
        emit (Print (replicate 70 (of_char CHR ''=''))),
        emit (Print (str ''FINAL SUMMARY'')),
        emit (Print (replicate 70 (of_char CHR ''=''))),
        emit (Print (str ''[+] Successful: '' @ str_int (successful counts))),
        emit (Print (str ''[!] Already claimed: '' @ str_int (already_claimed counts))),
        emit (Print (str ''[-] Failed: '' @ str_int (failed counts))),
        emit (Print (str ''[*] Total: ''
                @ str_int (successful counts + already_claimed counts + failed counts))),
        emit (Print (replicate 70 (of_char CHR ''=''))),
        emit (Print []),
        emit (Print (str ''[+] Process completed!''))]"

text \<open>
  The statements of \<open>run_cli\<close> after the constructor inside the \<open>try\<close>: the login, the loop
  and the summary. The value is the exit code.
\<close>

definition run_cli_body :: "'w browser \<Rightarrow> pystr list \<Rightarrow> ('w bot, int) act" where
  "run_cli_body E codes =
     bindE (login E) (\<lambda>logged_in.
       if \<not> logged_in then
         thenE (log_error (str ''Login failed. Aborting.'')) (ret 1)
       else
         bindE (redeem_loop E (length codes) 1 codes RedeemStats_init) (\<lambda>counts.
           thenE (print_summary counts) (ret 0)))"

text \<open>The two \<open>except\<close> clauses of \<open>run_cli\<close>; \<open>traceback.print_exc()\<close> prints what
  \<open>format_exc\<close> gives.\<close>

definition run_cli_except :: "'w browser \<Rightarrow> exn \<Rightarrow> ('w bot, int) act" where
  "run_cli_except E e =
     (if e = KeyboardInterrupt then
        thenE (emit (Print (10 # str ''[!] Process interrupted by user''))) (ret 1)
      else if is_Exception e then
        seqE_then
          [emit (Print (10 # str ''[ERROR] Unexpected error: '' @ exn_str E e)),
           emit (Print (format_exc E e))]
          (ret 1)
      else throw e)"

text \<open>
  \<open>run_cli\<close> from \<open>bot = None\<close> (line 135) to its end. The statements before it print, read
  the player id, the code list and the installed browsers, and either return 1 or go on;
  none of them builds a bot, and what they found are the arguments here: the player id,
  \<open>headless\<close>, the browser's path and name, and the codes. The variable \<open>bot\<close> is bound
  when the constructor has returned and is \<open>None\<close> until then; the object has no \<open>__bool__\<close>
  or \<open>__len__\<close>, so \<open>if bot\<close> asks just that. An exception of the constructor is inside the
  \<open>try\<close> like any other.
\<close>

definition run_cli ::
  "'w browser \<Rightarrow> 'w runtime \<Rightarrow> pystr \<Rightarrow> bool \<Rightarrow> pystr option \<Rightarrow> pystr \<Rightarrow> pystr list
     \<Rightarrow> ('w bot, int) act" where
  "run_cli E L pid headless browser_path name codes =
     (\<lambda>s. case KingshotBotHeadless E L pid headless browser_path (Some name) s of
        (r, s1) \<Rightarrow>
          (let bot = (case r of Inl _ \<Rightarrow> False | Inr _ \<Rightarrow> True) in
             try_finally
               (try_except
                  (case r of Inl e \<Rightarrow> throw e | Inr _ \<Rightarrow> run_cli_body E codes)
                  (run_cli_except E))
               (if bot then close E else ret ())) s1)"

section \<open>A page that holds still\<close>

text \<open>
  What the locator theorems assume of the world \<open>w\<close>: while the page is being read, asking
  whether an element is displayed or for one of its attributes answers (\<open>vis\<close>, \<open>attr\<close>),
  raises nothing and leaves the world as it is.
\<close>

definition readable ::
  "'w browser \<Rightarrow> 'w \<Rightarrow> (elem \<Rightarrow> bool) \<Rightarrow> (elem \<Rightarrow> pystr \<Rightarrow> pystr option) \<Rightarrow> bool" where
  "readable E w vis attr =
     ((\<forall>el. el_is_displayed E el w = (Inr (vis el), w)) \<and>
      (\<forall>el a. el_get_attribute E el a w = (Inr (attr el a), w)))"

text \<open>\<open>(inp.get_attribute('placeholder') or '').lower()\<close> on such a page.\<close>

definition placeholder_of :: "'w browser \<Rightarrow> (elem \<Rightarrow> pystr \<Rightarrow> pystr option) \<Rightarrow> elem \<Rightarrow> pystr" where
  "placeholder_of E attr inp =
     str_lower E (case attr inp (str ''placeholder'') of None \<Rightarrow> [] | Some p \<Rightarrow> p)"

section \<open>The code fetcher (utils.py)\<close>

text \<open>
  \<open>requests\<close>, \<open>BeautifulSoup\<close>, the compiled \<open>SCRAPING_PATTERN\<close> and the clock are the
  outside world of the fetcher: \<open>requests_get\<close> is \<open>requests.get\<close> followed by
  \<open>raise_for_status\<close> and \<open>.text\<close>; \<open>soup_get_text\<close> is \<open>BeautifulSoup(html,
  "html.parser").get_text()\<close>; \<open>pattern_findall\<close> is \<open>self.pattern.findall\<close>, the matches of
  the pattern in the order they occur in the text.
\<close>

definition CODES_SOURCE_URL :: pystr where
  "CODES_SOURCE_URL = str ''https://kingshot.net/gift-codes''"

record 'w web =
  has_scraping :: bool
  requests_get :: "'w \<Rightarrow> (exn + pystr) \<times> 'w"
  soup_get_text :: "pystr \<Rightarrow> 'w \<Rightarrow> (exn + pystr) \<times> 'w"
  pattern_findall :: "pystr \<Rightarrow> 'w \<Rightarrow> (exn + pystr list) \<times> 'w"
  web_sleep :: "real \<Rightarrow> 'w \<Rightarrow> (exn + unit) \<times> 'w"
  web_exn_str :: "exn \<Rightarrow> pystr"

text \<open>\<open>f"{x:.1f}"\<close> for a non-negative \<open>x\<close>: one decimal.\<close>

definition fmt_1f :: "real \<Rightarrow> pystr" where
  "fmt_1f x = (let tenths = nat \<lfloor>x * 10 + 1 / 2\<rfloor>
               in str_nat (tenths div 10) @ str ''.'' @ str_nat (tenths mod 10))"

text \<open>How one pass of the retry loop ends: with the text, or with \<open>last_error\<close> set.\<close>

datatype attempt_result = Fetched pystr | Failed_with pystr

definition failed_attempt :: "nat \<Rightarrow> pystr \<Rightarrow> (('w, 'z) st_scheme, attempt_result) act" where
  "failed_attempt attempt last_error =
     thenE (emit (Print (str ''[!] Attempt '' @ str_nat (attempt + 1) @ str '': '' @ last_error)))
       (ret (Failed_with last_error))"

text \<open>The \<open>except\<close> clauses of the loop body of \<open>_fetch_with_retry\<close>, in their order.\<close>

definition attempt_handlers ::
  "'w web \<Rightarrow> nat \<Rightarrow> exn \<Rightarrow> (('w, 'z) st_scheme, attempt_result) act" where
  "attempt_handlers N attempt e =
     (if e = RequestsTimeout then failed_attempt attempt (str ''Connection timed out'')
      else if e = RequestsConnectionError then failed_attempt attempt (str ''Connection failed'')
      else (case e of
              RequestsHTTPError status \<Rightarrow>
                failed_attempt attempt (str ''HTTP error: '' @ str_nat status)
            | _ \<Rightarrow> if is_Exception e then failed_attempt attempt (web_exn_str N e)
                   else throw e))"

definition fetch_attempt :: "'w web \<Rightarrow> nat \<Rightarrow> (('w, 'z) st_scheme, attempt_result) act" where
  "fetch_attempt N attempt =
     try_except
       (thenE
          (if attempt > 0 then
             (let delay = retry_delay_between * retry_backoff_multiplier ^ (attempt - 1) in
              thenE (emit (Print (str ''[*] Retry '' @ str_nat (attempt + 1) @ str ''/''
                       @ str_nat retry_max_attempts @ str '' after '' @ fmt_1f delay @ str ''s...'')))
                (thenE (emit (Sleep delay)) (call (web_sleep N delay))))
           else ret ())
          (bindE (thenE (emit (HttpGet CODES_SOURCE_URL)) (call (requests_get N)))
             (\<lambda>text. ret (Fetched text))))
       (attempt_handlers N attempt)"

fun fetch_attempts ::
  "'w web \<Rightarrow> nat list \<Rightarrow> pystr option \<Rightarrow> (('w, 'z) st_scheme, pystr option) act" where
  "fetch_attempts N [] last_error =
     thenE (emit (Print (str ''[ERROR] All '' @ str_nat retry_max_attempts
              @ str '' attempts failed. Last error: ''
              @ (case last_error of None \<Rightarrow> str ''None'' | Some msg \<Rightarrow> msg))))
       (ret None)"
| "fetch_attempts N (attempt # rest) last_error =
     bindE (fetch_attempt N attempt)
       (\<lambda>r. case r of
          Fetched text \<Rightarrow> ret (Some text)
        | Failed_with msg \<Rightarrow> fetch_attempts N rest (Some msg))"

definition fetch_with_retry :: "'w web \<Rightarrow> (('w, 'z) st_scheme, pystr option) act" where
  "fetch_with_retry N =
     (if \<not> has_scraping N then
        thenE (emit (Print (str ''[ERROR] Scraping dependencies not available''))) (ret None)
      else fetch_attempts N [0..<retry_max_attempts] None)"

text \<open>The loop of \<open>fetch\<close> that removes duplicates: \<open>seen\<close> and \<open>unique_codes\<close>.\<close>

fun unique_loop :: "pystr list \<Rightarrow> pystr set \<Rightarrow> pystr list \<Rightarrow> pystr list" where
  "unique_loop [] seen unique_codes = unique_codes"
| "unique_loop (code # rest) seen unique_codes =
     (if code \<notin> seen then unique_loop rest (insert code seen) (unique_codes @ [code])
      else unique_loop rest seen unique_codes)"

definition fetch :: "'w web \<Rightarrow> (('w, 'z) st_scheme, pystr list) act" where
  "fetch N =
     thenE (emit (Print (str ''[*] Fetching active codes from '' @ CODES_SOURCE_URL @ str ''...'')))
       (bindE (fetch_with_retry N) (\<lambda>html_content.
          case html_content of
            None \<Rightarrow> ret []
          | Some html \<Rightarrow>
              if html = [] then ret []
              else
                try_except
                  (bindE (call (soup_get_text N html)) (\<lambda>all_text.
                   bindE (call (pattern_findall N all_text)) (\<lambda>matches.
                     let unique_codes = unique_loop matches {} [];
                         active_codes = take MAX_CODES_TO_FETCH unique_codes
                     in thenE
                          (if active_codes \<noteq> [] then
                             thenE (emit (Print (str ''[+] Found '' @ str_nat (length active_codes)
                                      @ str '' active codes:'')))
                               (seqE (map (\<lambda>code. emit (Print (str ''    - '' @ code)))
                                        active_codes))
                           else emit (Print (str ''[!] No active codes found'')))
                          (ret active_codes))))
                  (\<lambda>e. if is_Exception e then
                         thenE (emit (Print (str ''[ERROR] Failed to parse codes: ''
                                  @ web_exn_str N e)))
                           (ret [])
                       else throw e)))"

section \<open>What a computation leaves alone\<close>

text \<open>
  \<open>quiet s s'\<close>: from \<open>s\<close> to \<open>s'\<close> the driver reference is the same, and the events have
  only grown, by events other than \<open>Quit\<close>. A computation is quiet when every run of it is.
\<close>

definition quiet :: "'w bot \<Rightarrow> 'w bot \<Rightarrow> bool" where
  "quiet s s' = (driver s' = driver s \<and> (\<exists>evs. events s' = events s @ evs \<and> Quit \<notin> set evs))"

definition quiet_act :: "('w bot, 'a) act \<Rightarrow> bool" where
  "quiet_act m = (\<forall>s. quiet s (snd (m s)))"

text \<open>
  \<open>calm s s'\<close> asks less: the events have only grown, by events other than \<open>Quit\<close>; the
  driver reference may have been assigned.
\<close>

definition calm :: "'w bot \<Rightarrow> 'w bot \<Rightarrow> bool" where
  "calm s s' = (\<exists>evs. events s' = events s @ evs \<and> Quit \<notin> set evs)"

definition calm_act :: "('w bot, 'a) act \<Rightarrow> bool" where
  "calm_act m = (\<forall>s. calm s (snd (m s)))"

text \<open>How often \<open>quit\<close> was called.\<close>

definition quit_calls :: "event list \<Rightarrow> nat" where
  "quit_calls evs = length (filter (\<lambda>ev. ev = Quit) evs)"

section \<open>Worlds for examples\<close>

text \<open>A world for examples: nothing changes, the page source is fixed, no call fails.\<close>

definition ascii_lower :: "pystr \<Rightarrow> pystr" where
  "ascii_lower t = map (\<lambda>c. if 65 \<le> c \<and> c \<le> 90 then c + 32 else c) t"

definition still_browser :: "pystr \<Rightarrow> unit browser" where
  "still_browser src = \<lparr>
     drv_get = (\<lambda>_ w. (Inr (), w)),
     drv_current_url = (\<lambda>w. (Inr REDEEM_URL, w)),
     drv_find_elements = (\<lambda>_ _ w. (Inr [], w)),
     drv_find_element = (\<lambda>_ _ w. (Inl NoSuchElementException, w)),
     drv_execute_script = (\<lambda>_ _ w. (Inr (), w)),
     drv_page_source = (\<lambda>w. (Inr src, w)),
     drv_delete_all_cookies = (\<lambda>w. (Inr (), w)),
     drv_quit = (\<lambda>w. (Inr (), w)),
     wait_until_text = (\<lambda>_ _ w. (Inr (), w)),
     el_click = (\<lambda>_ w. (Inr (), w)),
     el_is_displayed = (\<lambda>_ w. (Inr True, w)),
     el_text = (\<lambda>_ w. (Inr [], w)),
     el_get_attribute = (\<lambda>_ _ w. (Inr None, w)),
     el_clear = (\<lambda>_ w. (Inr (), w)),
     el_send_keys = (\<lambda>_ _ w. (Inr (), w)),
     time_sleep = (\<lambda>_ w. (Inr (), w)),
     str_lower = ascii_lower,
     str_strip = (\<lambda>t. t),
     exn_str = (\<lambda>_. []),
     format_exc = (\<lambda>_. [])
   \<rparr>"

definition bot0 :: "unit bot" where
  "bot0 = \<lparr>world = (), events = [], driver = Some WebDriver,
            browser_name = str ''Chrome'', player_id = str ''12345678''\<rparr>"

definition page_both :: pystr where
  "page_both = str ''<div>Gift ALREADY claimed - check your mail</div>''"

definition page_unknown :: pystr where
  "page_unknown = str ''<p>Try it later</p>''"

definition code_ABC123 :: pystr where
  "code_ABC123 = str ''ABC123''"

text \<open>The same page, but every direct click is intercepted (the script click goes through);
  and one whose elements have all gone stale.\<close>

definition blocked_browser :: "unit browser" where
  "blocked_browser =
     (still_browser [])\<lparr>el_click := (\<lambda>_ w. (Inl ElementClickInterceptedException, w))\<rparr>"

definition stale_browser :: "unit browser" where
  "stale_browser =
     (still_browser [])\<lparr>el_click := (\<lambda>_ w. (Inl StaleElementReferenceException, w))\<rparr>"

text \<open>A page with three text inputs: 1 is hidden, 2 has a placeholder that names the code,
  3 has \<open>maxlength="20"\<close>.\<close>

definition form_attr :: "elem \<Rightarrow> pystr \<Rightarrow> pystr option" where
  "form_attr el a =
     (if el = 3 \<and> a = str ''maxlength'' then Some (str ''20'')
      else if el = 2 \<and> a = str ''placeholder'' then Some (str ''Gift Code'')
      else None)"

definition form_browser :: "unit browser" where
  "form_browser =
     (still_browser [])\<lparr>
       drv_find_elements :=
         (\<lambda>how v w. (Inr (if how = CSS_SELECTOR \<and> v = sel_text_inputs then [1, 2, 3] else []), w)),
       el_is_displayed := (\<lambda>el w. (Inr (el \<noteq> 1), w)),
       el_get_attribute := (\<lambda>el a w. (Inr (form_attr el a), w))\<rparr>"

text \<open>A code source that answers, with the matches ABC123, XYZ789, ABC123, KING2025; and one
  that is down.\<close>

definition shop_web :: "unit web" where
  "shop_web = \<lparr>
     has_scraping = True,
     requests_get = (\<lambda>w. (Inr (str ''<html>codes</html>''), w)),
     soup_get_text = (\<lambda>html w. (Inr (str ''codes''), w)),
     pattern_findall =
       (\<lambda>t w. (Inr [str ''ABC123'', str ''XYZ789'', str ''ABC123'', str ''KING2025''], w)),
     web_sleep = (\<lambda>_ w. (Inr (), w)),
     web_exn_str = (\<lambda>_. [])
   \<rparr>"

definition down_web :: "unit web" where
  "down_web = shop_web\<lparr>requests_get := (\<lambda>w. (Inl RequestsConnectionError, w))\<rparr>"

definition st0 :: "unit st" where
  "st0 = \<lparr>world = (), events = []\<rparr>"

text \<open>A browser whose element lookups fail with \<open>WebDriverException\<close>, and one whose \<open>quit\<close>
  does.\<close>

definition broken_browser :: "unit browser" where
  "broken_browser =
     (still_browser [])\<lparr>drv_find_elements := (\<lambda>_ _ w. (Inl WebDriverException, w))\<rparr>"

definition stuck_browser :: "unit browser" where
  "stuck_browser = (still_browser [])\<lparr>drv_quit := (\<lambda>w. (Inl WebDriverException, w))\<rparr>"

definition code_XYZ789 :: pystr where
  "code_XYZ789 = str ''XYZ789''"

text \<open>Browsers for the exit paths of a run: one that cannot load the page, one where every
  sleep is interrupted, and a portal on which the login and a redemption go through (one
  text input, a button behind every selector but the mask's, and the page of
  \<open>page_both\<close>).\<close>

definition offline_browser :: "unit browser" where
  "offline_browser = (still_browser [])\<lparr>drv_get := (\<lambda>_ w. (Inl WebDriverException, w))\<rparr>"

definition interrupted_browser :: "unit browser" where
  "interrupted_browser = (still_browser [])\<lparr>time_sleep := (\<lambda>_ w. (Inl KeyboardInterrupt, w))\<rparr>"

definition portal_browser :: "unit browser" where
  "portal_browser =
     (still_browser page_both)\<lparr>
       drv_find_elements :=
         (\<lambda>how v w. (Inr (if how = CSS_SELECTOR \<and> v = sel_text_inputs then [1] else []), w)),
       drv_find_element :=
         (\<lambda>how v w. if v = sel_mask then (Inl NoSuchElementException, w) else (Inr 9, w))\<rparr>"

text \<open>Two more pages for the input locator. On the first, \<open>input[type='text']\<close> matches
  only the hidden element 1, while the untyped input 2 is visible and has
  \<open>maxlength="20"\<close>. On the second, both are visible and 1, the typed one, has no
  attribute.\<close>

definition shadow_attr :: "elem \<Rightarrow> pystr \<Rightarrow> pystr option" where
  "shadow_attr el a = (if el = 2 \<and> a = str ''maxlength'' then Some (str ''20'') else None)"

definition shadow_browser :: "unit browser" where
  "shadow_browser =
     (still_browser [])\<lparr>
       drv_find_elements :=
         (\<lambda>how v w. (Inr (if how = CSS_SELECTOR \<and> v = sel_text_inputs then [1]
                            else if how = TAG_NAME \<and> v = str ''input'' then [1, 2]
                            else []), w)),
       el_is_displayed := (\<lambda>el w. (Inr (el \<noteq> 1), w)),
       el_get_attribute := (\<lambda>el a w. (Inr (shadow_attr el a), w))\<rparr>"

definition mixed_browser :: "unit browser" where
  "mixed_browser = shadow_browser\<lparr>el_is_displayed := (\<lambda>el w. (Inr True, w))\<rparr>"

text \<open>A machine on which the log file opens and the browser starts, and one on which the
  browser does not start; the state before any bot is built; and the arguments of a run.\<close>

definition runtime0 :: "unit runtime" where
  "runtime0 = \<lparr>
     now_strftime = (\<lambda>w. (Inr (str ''20250101_120000''), w)),
     logging_FileHandler = (\<lambda>_ w. (Inr (), w)),
     tempfile_gettempdir = (\<lambda>w. (Inr (str ''/tmp''), w)),
     os_path_join = (\<lambda>a b. a @ str ''/'' @ b),
     webdriver_Chrome = (\<lambda>_ w. (Inr WebDriver, w))
   \<rparr>"

definition no_chrome :: "unit runtime" where
  "no_chrome = runtime0\<lparr>webdriver_Chrome := (\<lambda>_ w. (Inl WebDriverException, w))\<rparr>"

definition unbuilt :: "unit bot" where
  "unbuilt = \<lparr>world = (), events = [], driver = None, browser_name = [], player_id = []\<rparr>"

definition id_12345678 :: pystr where
  "id_12345678 = str ''12345678''"

definition chrome_path :: pystr where
  "chrome_path = str ''/usr/bin/google-chrome''"

definition edge_path :: pystr where
  "edge_path = str ''/usr/bin/microsoft-edge''"

text \<open>The bot that the constructor builds on that machine for Chrome, headless.\<close>

definition built :: "unit bot" where
  "built = \<lparr>world = (),
     events =
       [Log INFO (replicate 70 (of_char CHR ''='')),
        Log INFO (str ''Kingshot Gift Code Bot v3.0.0''),
        Log INFO (replicate 70 (of_char CHR ''='')),
        Log INFO (str ''Log file: bot_log_20250101_120000.txt''),
        Log INFO (str ''Player ID: 12345678''),
        Log INFO (str ''[*] Using Chrome browser: /usr/bin/google-chrome''),
        Log INFO (str ''[*] Headless mode enabled (INVISIBLE browser)''),
        Log INFO (str ''[*] Starting ChromeDriver...''),
        StartChrome,
        Log INFO (str ''[+] ChromeDriver started successfully'')],
     driver = Some WebDriver, browser_name = str ''Chrome'', player_id = str ''12345678''\<rparr>"

section \<open>Running a computation\<close>

lemma bindE_apply:
  "bindE m f s = (case m s of (Inl e, s') \<Rightarrow> (Inl e, s') | (Inr x, s') \<Rightarrow> f x s')"
  by (simp add: bindE_def)

lemma thenE_apply:
  "thenE m n s = (case m s of (Inl e, s') \<Rightarrow> (Inl e, s') | (Inr x, s') \<Rightarrow> n s')"
  by (simp add: thenE_def bindE_def)

lemma ret_apply: "ret x s = (Inr x, s)"
  by (simp add: ret_def)

lemma throw_apply: "throw e s = (Inl e, s)"
  by (simp add: throw_def)

lemma try_except_apply:
  "try_except m h s = (case m s of (Inl e, s') \<Rightarrow> h e s' | (Inr x, s') \<Rightarrow> (Inr x, s'))"
  by (simp add: try_except_def)

lemma emit_apply: "emit ev s = (Inr (), s\<lparr>events := events s @ [ev]\<rparr>)"
  by (simp add: emit_def)

lemma call_apply: "call f s = (case f (world s) of (r, w') \<Rightarrow> (r, s\<lparr>world := w'\<rparr>))"
  by (simp add: call_def)

lemma drv_apply:
  "drv f s = (if driver s = None then (Inl AttributeError, s) else call f s)"
  by (simp add: drv_def)

lemmas run_simps =
  bindE_apply thenE_apply ret_apply throw_apply try_except_apply emit_apply call_apply drv_apply

lemmas log_defs =
  log_line_def log_info_def log_success_def log_error_def log_warning_def log_debug_def

lemma any_inI: "kw \<in> set kws \<Longrightarrow> py_in kw t \<Longrightarrow> any_in kws t"
  by (auto simp: any_in_def list_ex_iff)

section \<open>Statistics conservation\<close>

lemma total_update: "total (update st res) = total st + 1"
  by (simp add: total_def update_def)

lemma total_tally: "total (tally st rs) = total st + int (length rs)"
  unfolding tally_def
  by (induction rs arbitrary: st) (simp_all add: total_update)

lemma update_mono:
  "successful st \<le> successful (update st res)"
  "already_claimed st \<le> already_claimed (update st res)"
  "failed st \<le> failed (update st res)"
  by (simp_all add: update_def)

lemma tally_mono:
  "successful st \<le> successful (tally st rs) \<and>
   already_claimed st \<le> already_claimed (tally st rs) \<and>
   failed st \<le> failed (tally st rs)"
  unfolding tally_def
proof (induction rs arbitrary: st)
  case Nil
  show ?case by simp
next
  case (Cons r rs)
  from Cons.IH [of "update st r"] update_mono [of st r]
  show ?case by simp
qed

text \<open>
  C4. After N outcomes tallied from fresh statistics, one \<open>update\<close> per outcome, the three
  counters sum to N; no \<open>update\<close> and no tally lowers a counter; and an outcome that is
  neither \<open>SUCCESS\<close> nor \<open>ALREADY_CLAIMED\<close> (so \<open>FAILED\<close>, \<open>INVALID\<close> or \<open>EXPIRED\<close>) adds one
  to \<open>failed\<close> and leaves the other two counters alone.
\<close>

theorem statistics_conservation:
  "successful (tally RedeemStats_init rs) + already_claimed (tally RedeemStats_init rs)
     + failed (tally RedeemStats_init rs) = int (length rs)
   \<and> total (tally RedeemStats_init rs) = int (length rs)
   \<and> successful st \<le> successful (update st res)
   \<and> already_claimed st \<le> already_claimed (update st res)
   \<and> failed st \<le> failed (update st res)
   \<and> successful st \<le> successful (tally st rs)
   \<and> already_claimed st \<le> already_claimed (tally st rs)
   \<and> failed st \<le> failed (tally st rs)
   \<and> (res \<noteq> SUCCESS \<and> res \<noteq> ALREADY_CLAIMED \<longrightarrow>
        failed (update st res) = failed st + 1
        \<and> successful (update st res) = successful st
        \<and> already_claimed (update st res) = already_claimed st)"
proof -
  have t: "total (tally RedeemStats_init rs) = int (length rs)"
    using total_tally [of RedeemStats_init rs] by (simp add: total_def RedeemStats_init_def)
  have u: "res \<noteq> SUCCESS \<and> res \<noteq> ALREADY_CLAIMED \<longrightarrow>
        failed (update st res) = failed st + 1
        \<and> successful (update st res) = successful st
        \<and> already_claimed (update st res) = already_claimed st"
    by (simp add: update_def)
  from t u update_mono [of st res] tally_mono [of st rs] show ?thesis
    by (simp add: total_def)
qed

theorem statistics_conservation_witness:
  "total (tally RedeemStats_init [SUCCESS, INVALID, ALREADY_CLAIMED, EXPIRED, FAILED]) = 5
   \<and> INVALID \<noteq> SUCCESS \<and> INVALID \<noteq> ALREADY_CLAIMED
   \<and> failed (update RedeemStats_init INVALID) = 1
   \<and> successful (update RedeemStats_init INVALID) = 0
   \<and> already_claimed (update RedeemStats_init INVALID) = 0"
  using statistics_conservation [of "[SUCCESS, INVALID, ALREADY_CLAIMED, EXPIRED, FAILED]" RedeemStats_init INVALID]
  by (simp add: RedeemStats_init_def)

section \<open>The result classifier\<close>

text \<open>What \<open>_analyze_result\<close> returns and logs once the page source has been read.\<close>

lemma analyze_result_page:
  assumes d: "driver s = Some d"
    and p: "drv_page_source E (world s) = (Inr page_source, w')"
  shows "analyze_result E code s =
     (let t = str_lower E page_source in
      (Inr (if any_in (kw_already_claimed LANGUAGE_KEYWORDS) t then ALREADY_CLAIMED
            else if any_in (kw_success LANGUAGE_KEYWORDS) t then SUCCESS
            else FAILED),
       s\<lparr>world := w', events := events s @
          [Log DEBUG (str ''[DEBUG]'' @ str '' '' @ str ''Page content preview: '' @ take 500 t),
           if any_in (kw_already_claimed LANGUAGE_KEYWORDS) t then
             Log WARNING (str ''[!]'' @ str '' '' @ str ''Code '' @ code
               @ str '' was already claimed previously'')
           else if any_in (kw_success LANGUAGE_KEYWORDS) t then
             Log INFO (str ''[+]'' @ str '' '' @ str ''Code '' @ code
               @ str '' redeemed successfully!'')
           else if any_in (kw_error LANGUAGE_KEYWORDS) t then
             Log ERROR (str ''[ERROR]'' @ str '' '' @ str ''Error redeeming code '' @ code)
           else
             Log WARNING (str ''[!]'' @ str '' '' @ str ''Could not determine result for code ''
               @ code @ str '' - marking as failed'')]\<rparr>))"
  using d p
  by (simp add: analyze_result_def run_simps log_defs Let_def)

text \<open>
  C1. Once the page source has been read, with \<open>t\<close> its lower-cased text: the keyword
  lists are tried in the order already-claimed, success, error, default, so the outcome
  is \<open>ALREADY_CLAIMED\<close> if an already-claimed keyword occurs in \<open>t\<close>, else \<open>SUCCESS\<close> if a
  success keyword occurs, else \<open>FAILED\<close>; and a page that holds both an already-claimed
  keyword and a success keyword is classified \<open>ALREADY_CLAIMED\<close>, not \<open>SUCCESS\<close>.
\<close>

theorem classifier_priority:
  assumes "driver s = Some d"
    and "drv_page_source E (world s) = (Inr page_source, w')"
  shows "fst (analyze_result E code s) =
           Inr (if any_in (kw_already_claimed LANGUAGE_KEYWORDS) (str_lower E page_source)
                then ALREADY_CLAIMED
                else if any_in (kw_success LANGUAGE_KEYWORDS) (str_lower E page_source)
                then SUCCESS
                else if any_in (kw_error LANGUAGE_KEYWORDS) (str_lower E page_source)
                then FAILED
                else FAILED)
         \<and> (any_in (kw_already_claimed LANGUAGE_KEYWORDS) (str_lower E page_source)
              \<and> any_in (kw_success LANGUAGE_KEYWORDS) (str_lower E page_source)
            \<longrightarrow> fst (analyze_result E code s) = Inr ALREADY_CLAIMED
                \<and> fst (analyze_result E code s) \<noteq> Inr SUCCESS)"
  using analyze_result_page [OF assms, of code]
  by (simp add: Let_def)

lemma page_both_lower:
  "ascii_lower page_both = str ''<div>gift already claimed - check your mail</div>''"
  by (simp add: ascii_lower_def page_both_def)

theorem classifier_priority_witness:
  "driver bot0 = Some WebDriver
   \<and> drv_page_source (still_browser page_both) (world bot0) = (Inr page_both, ())
   \<and> any_in (kw_already_claimed LANGUAGE_KEYWORDS) (str_lower (still_browser page_both) page_both)
   \<and> any_in (kw_success LANGUAGE_KEYWORDS) (str_lower (still_browser page_both) page_both)
   \<and> fst (analyze_result (still_browser page_both) code_ABC123 bot0) = Inr ALREADY_CLAIMED
   \<and> fst (analyze_result (still_browser page_both) code_ABC123 bot0) \<noteq> Inr SUCCESS"
proof -
  have d: "driver bot0 = Some WebDriver"
    by (simp add: bot0_def)
  have p: "drv_page_source (still_browser page_both) (world bot0) = (Inr page_both, ())"
    by (simp add: still_browser_def)
  have l: "str_lower (still_browser page_both) page_both
             = str ''<div>gift already claimed - check your mail</div>''"
    by (simp add: still_browser_def page_both_lower)
  have a: "any_in (kw_already_claimed LANGUAGE_KEYWORDS)
             (str_lower (still_browser page_both) page_both)"
    unfolding l by (rule any_inI [of "str ''already''"]) (simp_all add: LANGUAGE_KEYWORDS_def)
  have b: "any_in (kw_success LANGUAGE_KEYWORDS)
             (str_lower (still_browser page_both) page_both)"
    unfolding l by (rule any_inI [of "str ''mail''"]) (simp_all add: LANGUAGE_KEYWORDS_def)
  from classifier_priority [OF d p, of code_ABC123] a b d p show ?thesis
    by simp
qed

text \<open>
  C7. Once the page source has been read, if its lower-cased text holds no keyword of the
  already-claimed, success and error lists, \<open>_analyze_result\<close> returns \<open>FAILED\<close> as a value
  (it does not raise) and its last log line is the warning "Could not determine result
  ..."; where an error keyword occurs (and no already-claimed or success keyword), the
  outcome is \<open>FAILED\<close> too, but the last log line is the error "Error redeeming code ...".
\<close>

theorem classifier_completeness:
  assumes "driver s = Some d"
    and "drv_page_source E (world s) = (Inr page_source, w')"
    and "\<not> any_in (kw_already_claimed LANGUAGE_KEYWORDS) (str_lower E page_source)"
    and "\<not> any_in (kw_success LANGUAGE_KEYWORDS) (str_lower E page_source)"
  shows "(\<not> any_in (kw_error LANGUAGE_KEYWORDS) (str_lower E page_source) \<longrightarrow>
            analyze_result E code s =
              (Inr FAILED,
               s\<lparr>world := w', events := events s @
                 [Log DEBUG (str ''[DEBUG]'' @ str '' '' @ str ''Page content preview: ''
                    @ take 500 (str_lower E page_source)),
                  Log WARNING (str ''[!]'' @ str '' '' @ str ''Could not determine result for code ''
                    @ code @ str '' - marking as failed'')]\<rparr>))
         \<and> (any_in (kw_error LANGUAGE_KEYWORDS) (str_lower E page_source) \<longrightarrow>
            analyze_result E code s =
              (Inr FAILED,
               s\<lparr>world := w', events := events s @
                 [Log DEBUG (str ''[DEBUG]'' @ str '' '' @ str ''Page content preview: ''
                    @ take 500 (str_lower E page_source)),
                  Log ERROR (str ''[ERROR]'' @ str '' '' @ str ''Error redeeming code ''
                    @ code)]\<rparr>))"
  using analyze_result_page [OF assms(1,2), of code] assms(3,4)
  by (simp add: Let_def)

lemma page_unknown_lower: "ascii_lower page_unknown = str ''<p>try it later</p>''"
  by (simp add: ascii_lower_def page_unknown_def)

theorem classifier_completeness_witness:
  "driver bot0 = Some WebDriver
   \<and> drv_page_source (still_browser page_unknown) (world bot0) = (Inr page_unknown, ())
   \<and> \<not> any_in (kw_already_claimed LANGUAGE_KEYWORDS)
          (str_lower (still_browser page_unknown) page_unknown)
   \<and> \<not> any_in (kw_success LANGUAGE_KEYWORDS)
          (str_lower (still_browser page_unknown) page_unknown)
   \<and> \<not> any_in (kw_error LANGUAGE_KEYWORDS)
          (str_lower (still_browser page_unknown) page_unknown)
   \<and> analyze_result (still_browser page_unknown) code_ABC123 bot0 =
       (Inr FAILED,
        bot0\<lparr>world := (), events := events bot0 @
          [Log DEBUG (str ''[DEBUG]'' @ str '' '' @ str ''Page content preview: ''
             @ take 500 (str_lower (still_browser page_unknown) page_unknown)),
           Log WARNING (str ''[!]'' @ str '' '' @ str ''Could not determine result for code ''
             @ code_ABC123 @ str '' - marking as failed'')]\<rparr>)"
proof -
  have d: "driver bot0 = Some WebDriver"
    by (simp add: bot0_def)
  have p: "drv_page_source (still_browser page_unknown) (world bot0) = (Inr page_unknown, ())"
    by (simp add: still_browser_def)
  have l: "str_lower (still_browser page_unknown) page_unknown = str ''<p>try it later</p>''"
    by (simp add: still_browser_def page_unknown_lower)
  have a: "\<not> any_in (kw_already_claimed LANGUAGE_KEYWORDS)
             (str_lower (still_browser page_unknown) page_unknown)"
    unfolding l by (simp add: any_in_def LANGUAGE_KEYWORDS_def)
  have b: "\<not> any_in (kw_success LANGUAGE_KEYWORDS)
             (str_lower (still_browser page_unknown) page_unknown)"
    unfolding l by (simp add: any_in_def LANGUAGE_KEYWORDS_def)
  have c: "\<not> any_in (kw_error LANGUAGE_KEYWORDS)
             (str_lower (still_browser page_unknown) page_unknown)"
    unfolding l by (simp add: any_in_def LANGUAGE_KEYWORDS_def)
  from classifier_completeness [OF d p a b, of code_ABC123] a b c d p show ?thesis
    by simp
qed

section \<open>Safe clicks\<close>

lemma attempts_list: "[0..<3] = [0, 1, 2::nat]"
  by (simp add: upt_rec)

lemma str_nat_digit: "n < 10 \<Longrightarrow> str_nat n = [48 + n]"
  by (simp add: str_nat.simps)

lemma sleep_apply:
  "sleep E d s =
     (case time_sleep E d (world s) of
        (r, w') \<Rightarrow> (r, s\<lparr>world := w', events := events s @ [Sleep d]\<rparr>))"
  by (simp add: sleep_def run_simps split: prod.splits sum.splits)

lemma click_apply:
  "click E el s =
     (case el_click E el (world s) of
        (r, w') \<Rightarrow> (r, s\<lparr>world := w', events := events s @ [Click el]\<rparr>))"
  by (simp add: click_def run_simps split: prod.splits sum.splits)

text \<open>Three intercepted clicks in a row, each followed by a delay that returns, with the
  worlds passed through written out.\<close>

lemma intercepted_trace:
  assumes d: "driver s = Some d"
    and c1: "el_click E element (world s) = (Inl ElementClickInterceptedException, w1)"
    and s1: "time_sleep E click_delay w1 = (Inr (), w2)"
    and c2: "el_click E element w2 = (Inl ElementClickInterceptedException, w3)"
    and s2: "time_sleep E click_delay w3 = (Inr (), w4)"
    and c3: "el_click E element w4 = (Inl ElementClickInterceptedException, w5)"
    and s3: "time_sleep E click_delay w5 = (Inr (), w6)"
    and f: "drv_execute_script E JS_click [element] w6 = (r, w7)"
  shows "click_element_safe E element s =
     ((case r of Inr _ \<Rightarrow> Inr True | Inl e \<Rightarrow> if is_Exception e then Inr False else Inl e),
      s\<lparr>world := w7, events := events s @
        [Click element,
         Log DEBUG (str ''[DEBUG]'' @ str '' '' @ str ''Click intercepted, attempt 1/3''),
         Sleep click_delay,
         Click element,
         Log DEBUG (str ''[DEBUG]'' @ str '' '' @ str ''Click intercepted, attempt 2/3''),
         Sleep click_delay,
         Click element,
         Log DEBUG (str ''[DEBUG]'' @ str '' '' @ str ''Click intercepted, attempt 3/3''),
         Sleep click_delay,
         ExecuteScript JS_click [element]]\<rparr>)"
  using assms
  by (simp add: click_element_safe_def max_attempts_def attempts_list click_attempt_def
      click_apply sleep_apply execute_script_def drv_do_def run_simps log_defs str_nat_digit
      split: sum.splits)

text \<open>
  C5. For a bot that holds a driver, a target whose every direct click is intercepted, and
  delays that return: \<open>_click_element_safe\<close> makes exactly three direct clicks, each
  followed by the log line and the delay of \<open>click_delay\<close>; only then, on the third and
  last pass, it makes one script click; it returns \<open>True\<close> if that script click is
  delivered, \<open>False\<close> if it raises an \<open>Exception\<close> (anything else propagates).
\<close>

theorem click_retry_bound:
  assumes "driver s = Some d"
    and "\<forall>w. fst (el_click E element w) = Inl ElementClickInterceptedException"
    and "\<forall>w. fst (time_sleep E click_delay w) = Inr ()"
  shows "\<exists>w r w'. drv_execute_script E JS_click [element] w = (r, w') \<and>
     click_element_safe E element s =
       ((case r of Inr _ \<Rightarrow> Inr True | Inl e \<Rightarrow> if is_Exception e then Inr False else Inl e),
        s\<lparr>world := w', events := events s @
          [Click element,
           Log DEBUG (str ''[DEBUG]'' @ str '' '' @ str ''Click intercepted, attempt 1/3''),
           Sleep click_delay,
           Click element,
           Log DEBUG (str ''[DEBUG]'' @ str '' '' @ str ''Click intercepted, attempt 2/3''),
           Sleep click_delay,
           Click element,
           Log DEBUG (str ''[DEBUG]'' @ str '' '' @ str ''Click intercepted, attempt 3/3''),
           Sleep click_delay,
           ExecuteScript JS_click [element]]\<rparr>)"
proof -
  have click: "\<And>w. el_click E element w
                 = (Inl ElementClickInterceptedException, snd (el_click E element w))"
    using assms(2) by (metis prod.collapse)
  have nap: "\<And>w. time_sleep E click_delay w = (Inr (), snd (time_sleep E click_delay w))"
    using assms(3) by (metis prod.collapse)
  define w1 where "w1 = snd (el_click E element (world s))"
  define w2 where "w2 = snd (time_sleep E click_delay w1)"
  define w3 where "w3 = snd (el_click E element w2)"
  define w4 where "w4 = snd (time_sleep E click_delay w3)"
  define w5 where "w5 = snd (el_click E element w4)"
  define w6 where "w6 = snd (time_sleep E click_delay w5)"
  obtain r w7 where f: "drv_execute_script E JS_click [element] w6 = (r, w7)"
    by (cases "drv_execute_script E JS_click [element] w6")
  have "click_element_safe E element s =
       ((case r of Inr _ \<Rightarrow> Inr True | Inl e \<Rightarrow> if is_Exception e then Inr False else Inl e),
        s\<lparr>world := w7, events := events s @
          [Click element,
           Log DEBUG (str ''[DEBUG]'' @ str '' '' @ str ''Click intercepted, attempt 1/3''),
           Sleep click_delay,
           Click element,
           Log DEBUG (str ''[DEBUG]'' @ str '' '' @ str ''Click intercepted, attempt 2/3''),
           Sleep click_delay,
           Click element,
           Log DEBUG (str ''[DEBUG]'' @ str '' '' @ str ''Click intercepted, attempt 3/3''),
           Sleep click_delay,
           ExecuteScript JS_click [element]]\<rparr>)"
    by (rule intercepted_trace [OF assms(1) _ _ _ _ _ _ f])
       (simp_all add: w1_def w2_def w3_def w4_def w5_def w6_def click [symmetric] nap [symmetric])
  with f show ?thesis by blast
qed

theorem click_retry_bound_witness:
  "driver bot0 = Some WebDriver
   \<and> (\<forall>w. fst (el_click blocked_browser 7 w) = Inl ElementClickInterceptedException)
   \<and> (\<forall>w. fst (time_sleep blocked_browser click_delay w) = Inr ())
   \<and> click_element_safe blocked_browser 7 bot0 =
       (Inr True,
        bot0\<lparr>events :=
          [Click 7,
           Log DEBUG (str ''[DEBUG]'' @ str '' '' @ str ''Click intercepted, attempt 1/3''),
           Sleep click_delay,
           Click 7,
           Log DEBUG (str ''[DEBUG]'' @ str '' '' @ str ''Click intercepted, attempt 2/3''),
           Sleep click_delay,
           Click 7,
           Log DEBUG (str ''[DEBUG]'' @ str '' '' @ str ''Click intercepted, attempt 3/3''),
           Sleep click_delay,
           ExecuteScript JS_click [7]]\<rparr>)"
proof -
  have d: "driver bot0 = Some WebDriver"
    by (simp add: bot0_def)
  have c: "\<forall>w. fst (el_click blocked_browser 7 w) = Inl ElementClickInterceptedException"
    by (simp add: blocked_browser_def)
  have n: "\<forall>w. fst (time_sleep blocked_browser click_delay w) = Inr ()"
    by (simp add: blocked_browser_def still_browser_def)
  have f: "\<And>w. drv_execute_script blocked_browser JS_click [7] w = (Inr (), ())"
    by (simp add: blocked_browser_def still_browser_def)
  from click_retry_bound [OF d c n] f d c n show ?thesis
    by (auto simp: bot0_def)
qed

text \<open>
  C6. If the first direct click raises \<open>StaleElementReferenceException\<close>,
  \<open>_click_element_safe\<close> returns \<open>False\<close> at once: that one click and the debug line are all
  it does, with no delay, no second click and no script click.
\<close>

theorem stale_short_circuit:
  assumes "el_click E element (world s) = (Inl StaleElementReferenceException, w')"
  shows "click_element_safe E element s =
     (Inr False, s\<lparr>world := w', events := events s @
        [Click element, Log DEBUG (str ''[DEBUG]'' @ str '' '' @ str ''Element became stale'')]\<rparr>)"
  using assms
  by (simp add: click_element_safe_def max_attempts_def attempts_list click_attempt_def
      click_apply run_simps log_defs)

theorem stale_short_circuit_witness:
  "el_click stale_browser 7 (world bot0) = (Inl StaleElementReferenceException, ())
   \<and> click_element_safe stale_browser 7 bot0 =
       (Inr False, bot0\<lparr>events :=
          [Click 7, Log DEBUG (str ''[DEBUG]'' @ str '' '' @ str ''Element became stale'')]\<rparr>)"
proof -
  have c: "el_click stale_browser 7 (world bot0) = (Inl StaleElementReferenceException, ())"
    by (simp add: stale_browser_def)
  from stale_short_circuit [OF c] c show ?thesis
    by (simp add: bot0_def)
qed

section \<open>The input locator\<close>

lemma bindE_known: "m s = (Inr x, s') \<Longrightarrow> bindE m f s = f x s'"
  by (simp add: bindE_def)

lemma visible_of_readable:
  assumes "readable E (world s) vis attr"
  shows "visible_of E xs s = (Inr (filter vis xs), s)"
  using assms
  by (induction xs) (simp_all add: readable_def is_element_visible_def run_simps)

lemma find_elements_safe_still:
  assumes "driver s = Some d" "drv_find_elements E how v (world s) = (Inr xs, world s)"
  shows "find_elements_safe E how v s = (Inr xs, s)"
  using assms by (simp add: find_elements_safe_def run_simps)

lemma by_maxlength_readable:
  assumes "readable E (world s) vis attr"
  shows "by_maxlength E m xs s =
     (case find (\<lambda>inp. attr inp (str ''maxlength'') = Some m) xs of
        None \<Rightarrow> (Inr Next, s)
      | Some inp \<Rightarrow> (Inr (Return inp), s\<lparr>events := events s @
          [Log INFO (str ''[+]'' @ str '' '' @ str ''Field found by maxlength='' @ m)]\<rparr>))"
  using assms
  by (induction xs) (simp_all add: readable_def run_simps log_defs)

lemma by_placeholder_readable:
  assumes "readable E (world s) vis attr"
  shows "by_placeholder E ft xs s =
     (case find (\<lambda>inp. any_in (placeholder_keywords ft) (placeholder_of E attr inp)) xs of
        None \<Rightarrow> (Inr Next, s)
      | Some inp \<Rightarrow> (Inr (Return inp), s\<lparr>events := events s @
          [Log INFO (str ''[+]'' @ str '' '' @ str ''Field found by placeholder: '' @ [39]
             @ placeholder_of E attr inp @ [39])]\<rparr>))"
  using assms
  by (induction xs) (simp_all add: readable_def run_simps log_defs placeholder_of_def Let_def)

lemma find_input_field_readable:
  assumes d: "driver s = Some d"
    and r: "readable E (world s) vis attr"
    and t: "drv_find_elements E CSS_SELECTOR sel_text_inputs (world s) = (Inr typed, world s)"
    and a: "drv_find_elements E TAG_NAME (str ''input'') (world s) = (Inr all_inputs, world s)"
    and m: "m \<noteq> []"
  shows "find_input_field E field_type (Some m) s =
     (let visible_inputs = filter vis (if typed = [] then filter vis all_inputs else typed);
          found = Log INFO (str ''[*]'' @ str '' '' @ str ''Found ''
                    @ str_nat (length visible_inputs) @ str '' visible input fields'')
      in case find (\<lambda>inp. attr inp (str ''maxlength'') = Some m) visible_inputs of
           Some inp \<Rightarrow> (Inr (Some inp), s\<lparr>events := events s @
             [found, Log INFO (str ''[+]'' @ str '' '' @ str ''Field found by maxlength='' @ m)]\<rparr>)
         | None \<Rightarrow>
             (case find (\<lambda>inp. any_in (placeholder_keywords field_type) (placeholder_of E attr inp))
                     visible_inputs of
                Some inp \<Rightarrow> (Inr (Some inp), s\<lparr>events := events s @
                  [found, Log INFO (str ''[+]'' @ str '' '' @ str ''Field found by placeholder: ''
                     @ [39] @ placeholder_of E attr inp @ [39])]\<rparr>)
              | None \<Rightarrow>
                  (case visible_inputs of
                     [] \<Rightarrow> (Inr None, s\<lparr>events := events s @ [found]\<rparr>)
                   | first # _ \<Rightarrow> (Inr (Some first), s\<lparr>events := events s @
                       [found,
                        Log WARNING (str ''[!]'' @ str '' '' @ str ''Using first visible input field'')]\<rparr>))))"
proof -
  have fe1: "find_elements_safe E CSS_SELECTOR sel_text_inputs s = (Inr typed, s)"
    by (rule find_elements_safe_still [OF d t])
  have fe2: "find_elements_safe E TAG_NAME (str ''input'') s = (Inr all_inputs, s)"
    by (rule find_elements_safe_still [OF d a])
  have v: "\<And>xs. visible_of E xs s = (Inr (filter vis xs), s)"
    by (rule visible_of_readable [OF r])
  have r': "\<And>evs. readable E (world (s\<lparr>events := evs\<rparr>)) vis attr"
    using r by simp
  define vi where "vi = filter vis (if typed = [] then filter vis all_inputs else typed)"
  have g: "(if typed = [] then
              bindE (find_elements_safe E TAG_NAME (str ''input'')) (\<lambda>all_inputs.
                visible_of E all_inputs)
            else ret typed) s = (Inr (if typed = [] then filter vis all_inputs else typed), s)"
  proof (cases "typed = []")
    case True
    have "bindE (find_elements_safe E TAG_NAME (str ''input'')) (\<lambda>all_inputs.
            visible_of E all_inputs) s = visible_of E all_inputs s"
      by (rule bindE_known [where m = "find_elements_safe E TAG_NAME (str ''input'')" and s = s,
            OF fe2])
    with True v show ?thesis by simp
  next
    case False
    then show ?thesis by (simp add: ret_apply)
  qed
  have v2: "visible_of E (if typed = [] then filter vis all_inputs else typed) s = (Inr vi, s)"
    unfolding vi_def by (rule v)
  have front: "find_input_field E field_type (Some m) s =
     thenE (log_info (str ''Found '' @ str_nat (length vi) @ str '' visible input fields''))
       (bindE (case Some m of
                 None \<Rightarrow> ret Next
               | Some m \<Rightarrow> if m = [] then ret Next else by_maxlength E m vi) (\<lambda>r1.
          case r1 of
            Return inp \<Rightarrow> ret (Some inp)
          | Next \<Rightarrow>
              bindE (by_placeholder E field_type vi) (\<lambda>r2.
                case r2 of
                  Return inp \<Rightarrow> ret (Some inp)
                | Next \<Rightarrow>
                    (case vi of
                       [] \<Rightarrow> ret None
                     | first # _ \<Rightarrow>
                         thenE (log_warning (str ''Using first visible input field''))
                           (ret (Some first)))))) s"
    unfolding find_input_field_def
    by (simp only:
        bindE_known [where m = "find_elements_safe E CSS_SELECTOR sel_text_inputs" and s = s, OF fe1]
        bindE_known [where m = "if typed = [] then
              bindE (find_elements_safe E TAG_NAME (str ''input'')) (\<lambda>all_inputs.
                visible_of E all_inputs)
            else ret typed" and s = s, OF g]
        bindE_known [where m = "visible_of E (if typed = [] then filter vis all_inputs else typed)"
          and s = s, OF v2])
  show ?thesis
    unfolding front vi_def [symmetric] Let_def
    by (simp add: m bindE_apply thenE_apply ret_apply log_defs emit_apply
        by_maxlength_readable [OF r'] by_placeholder_readable [OF r']
        split: option.splits list.splits)
qed

text \<open>
  C9, as amended. The candidates are the elements that \<open>input[type='text']\<close> matches, if
  it matches any element at all, visible or not; only if it matches none are they the
  visible ones of all \<open>input\<close> elements. On a page that holds still while it is read, for
  a bot that holds a driver and a non-empty \<open>maxlength\<close> argument \<open>m\<close>, with
  \<open>visible_inputs\<close> the visible candidates in page order: \<open>_find_input_field\<close> returns the
  first of them whose \<open>maxlength\<close> attribute equals \<open>m\<close>; if there is none, the first whose
  lower-cased placeholder holds a keyword of the field type; if there is none either, the
  first visible candidate, after the warning "Using first visible input field"; and it
  returns \<open>None\<close> exactly when no candidate is visible.
\<close>

theorem input_locator_tiers:
  assumes "driver s = Some d"
    and "readable E (world s) vis attr"
    and "drv_find_elements E CSS_SELECTOR sel_text_inputs (world s) = (Inr typed, world s)"
    and "drv_find_elements E TAG_NAME (str ''input'') (world s) = (Inr all_inputs, world s)"
    and "m \<noteq> []"
  shows
    "let visible_inputs = filter vis (if typed = [] then filter vis all_inputs else typed);
         by_attribute = find (\<lambda>inp. attr inp (str ''maxlength'') = Some m) visible_inputs;
         by_keyword = find (\<lambda>inp. any_in (placeholder_keywords field_type)
                                  (placeholder_of E attr inp)) visible_inputs;
         found = find_input_field E field_type (Some m) s
     in (\<forall>inp. by_attribute = Some inp \<longrightarrow> fst found = Inr (Some inp))
      \<and> (\<forall>inp. by_attribute = None \<and> by_keyword = Some inp \<longrightarrow> fst found = Inr (Some inp))
      \<and> (\<forall>first others. by_attribute = None \<and> by_keyword = None
            \<and> visible_inputs = first # others \<longrightarrow>
              fst found = Inr (Some first)
              \<and> last (events (snd found)) =
                  Log WARNING (str ''[!]'' @ str '' '' @ str ''Using first visible input field''))
      \<and> (fst found = Inr None \<longleftrightarrow> visible_inputs = [])"
  using find_input_field_readable [OF assms, of field_type]
  by (auto simp: Let_def split: option.splits list.splits)

text \<open>
  C9 as stated, of any visible input, fails where the typed selector matches an element
  that shadows the others. On the first page it matches only a hidden element: the
  visible input with \<open>maxlength="20"\<close> is never looked at and the result is \<open>None\<close>. On the
  second it matches a visible input without the attribute: that one is returned, as the
  low-confidence match, and not the visible input with \<open>maxlength="20"\<close>.
\<close>

theorem shadowed_input_counterexample:
  "drv_find_elements shadow_browser CSS_SELECTOR sel_text_inputs (world bot0) = (Inr [1], ())
   \<and> drv_find_elements shadow_browser TAG_NAME (str ''input'') (world bot0) = (Inr [1, 2], ())
   \<and> el_is_displayed shadow_browser 1 (world bot0) = (Inr False, ())
   \<and> el_is_displayed shadow_browser 2 (world bot0) = (Inr True, ())
   \<and> el_get_attribute shadow_browser 2 (str ''maxlength'') (world bot0)
       = (Inr (Some (str ''20'')), ())
   \<and> find_input_field shadow_browser (str ''code'') (Some (str ''20'')) bot0 =
       (Inr None,
        bot0\<lparr>events :=
          [Log INFO (str ''[*]'' @ str '' '' @ str ''Found 0 visible input fields'')]\<rparr>)
   \<and> drv_find_elements mixed_browser CSS_SELECTOR sel_text_inputs (world bot0) = (Inr [1], ())
   \<and> drv_find_elements mixed_browser TAG_NAME (str ''input'') (world bot0) = (Inr [1, 2], ())
   \<and> el_is_displayed mixed_browser 1 (world bot0) = (Inr True, ())
   \<and> el_is_displayed mixed_browser 2 (world bot0) = (Inr True, ())
   \<and> el_get_attribute mixed_browser 1 (str ''maxlength'') (world bot0) = (Inr None, ())
   \<and> el_get_attribute mixed_browser 2 (str ''maxlength'') (world bot0)
       = (Inr (Some (str ''20'')), ())
   \<and> find_input_field mixed_browser (str ''code'') (Some (str ''20'')) bot0 =
       (Inr (Some 1),
        bot0\<lparr>events :=
          [Log INFO (str ''[*]'' @ str '' '' @ str ''Found 1 visible input fields''),
           Log WARNING (str ''[!]'' @ str '' '' @ str ''Using first visible input field'')]\<rparr>)"
  by (simp add: find_input_field_def find_elements_safe_def is_element_visible_def
      placeholder_keywords_def any_in_def LANGUAGE_KEYWORDS_def
      run_simps log_defs mixed_browser_def shadow_browser_def shadow_attr_def
      still_browser_def bot0_def sel_text_inputs_def str_nat_digit ascii_lower_def)

lemma form_lower: "str_lower form_browser = ascii_lower"
  by (simp add: form_browser_def still_browser_def)

lemma form_placeholder:
  "placeholder_of form_browser form_attr 2 = str ''gift code''"
  "placeholder_of form_browser form_attr 3 = []"
  by (simp_all add: placeholder_of_def form_lower form_attr_def ascii_lower_def)

theorem input_locator_tiers_witness:
  "driver bot0 = Some WebDriver
   \<and> readable form_browser (world bot0) (\<lambda>el. el \<noteq> 1) form_attr
   \<and> drv_find_elements form_browser CSS_SELECTOR sel_text_inputs (world bot0)
       = (Inr [1, 2, 3], world bot0)
   \<and> drv_find_elements form_browser TAG_NAME (str ''input'') (world bot0) = (Inr [], world bot0)
   \<and> filter (\<lambda>el. el \<noteq> 1) [1, 2, 3] = [2, 3::nat]
   \<and> find (\<lambda>inp. form_attr inp (str ''maxlength'') = Some (str ''20'')) [2, 3] = Some 3
   \<and> fst (find_input_field form_browser (str ''code'') (Some (str ''20'')) bot0) = Inr (Some 3)
   \<and> find (\<lambda>inp. form_attr inp (str ''maxlength'') = Some (str ''6'')) [2, 3] = None
   \<and> find (\<lambda>inp. any_in (placeholder_keywords (str ''code''))
                  (placeholder_of form_browser form_attr inp)) [2, 3] = Some 2
   \<and> fst (find_input_field form_browser (str ''code'') (Some (str ''6'')) bot0) = Inr (Some 2)
   \<and> find (\<lambda>inp. any_in (placeholder_keywords (str ''player_id''))
                  (placeholder_of form_browser form_attr inp)) [2, 3] = None
   \<and> fst (find_input_field form_browser (str ''player_id'') (Some (str ''6'')) bot0)
       = Inr (Some 2)
   \<and> last (events (snd (find_input_field form_browser (str ''player_id'') (Some (str ''6''))
                           bot0)))
       = Log WARNING (str ''[!]'' @ str '' '' @ str ''Using first visible input field'')
   \<and> readable (still_browser []) (world bot0) (\<lambda>el. True) (\<lambda>el a. None)
   \<and> fst (find_input_field (still_browser []) (str ''code'') (Some (str ''20'')) bot0)
       = Inr None"
proof -
  have d: "driver bot0 = Some WebDriver"
    by (simp add: bot0_def)
  have r: "readable form_browser (world bot0) (\<lambda>el. el \<noteq> 1) form_attr"
    by (simp add: readable_def form_browser_def)
  have t: "drv_find_elements form_browser CSS_SELECTOR sel_text_inputs (world bot0)
             = (Inr [1, 2, 3], world bot0)"
    by (simp add: form_browser_def)
  have a: "drv_find_elements form_browser TAG_NAME (str ''input'') (world bot0)
             = (Inr [], world bot0)"
    by (simp add: form_browser_def sel_text_inputs_def)
  have v: "filter (\<lambda>el. el \<noteq> 1) [1, 2, 3] = [2, 3::nat]"
    by simp
  have f1: "find (\<lambda>inp. form_attr inp (str ''maxlength'') = Some (str ''20'')) [2, 3] = Some 3"
    by (simp add: form_attr_def)
  have f2: "find (\<lambda>inp. form_attr inp (str ''maxlength'') = Some (str ''6'')) [2, 3] = None"
    by (simp add: form_attr_def)
  have k1: "find (\<lambda>inp. any_in (placeholder_keywords (str ''code''))
                  (placeholder_of form_browser form_attr inp)) [2, 3] = Some 2"
    by (simp add: form_placeholder placeholder_keywords_def any_in_def LANGUAGE_KEYWORDS_def)
  have k2: "find (\<lambda>inp. any_in (placeholder_keywords (str ''player_id''))
                  (placeholder_of form_browser form_attr inp)) [2, 3] = None"
    by (simp add: form_placeholder placeholder_keywords_def any_in_def)
  have r0: "readable (still_browser []) (world bot0) (\<lambda>el. True) (\<lambda>el a. None)"
    by (simp add: readable_def still_browser_def)
  have t0: "drv_find_elements (still_browser []) CSS_SELECTOR sel_text_inputs (world bot0)
             = (Inr [], world bot0)"
    "drv_find_elements (still_browser []) TAG_NAME (str ''input'') (world bot0)
             = (Inr [], world bot0)"
    by (simp_all add: still_browser_def)
  have m: "str ''20'' \<noteq> []" "str ''6'' \<noteq> []"
    by simp_all
  from input_locator_tiers [OF d r t a m(1), of "str ''code''"] f1
  have w1: "fst (find_input_field form_browser (str ''code'') (Some (str ''20'')) bot0)
      = Inr (Some 3)"
    by (simp add: Let_def)
  from input_locator_tiers [OF d r t a m(2), of "str ''code''"] f2 k1
  have w2: "fst (find_input_field form_browser (str ''code'') (Some (str ''6'')) bot0)
      = Inr (Some 2)"
    by (simp add: Let_def)
  from input_locator_tiers [OF d r t a m(2), of "str ''player_id''"] f2 k2
  have w3: "fst (find_input_field form_browser (str ''player_id'') (Some (str ''6'')) bot0)
       = Inr (Some 2)"
    "last (events (snd (find_input_field form_browser (str ''player_id'') (Some (str ''6''))
                           bot0)))
       = Log WARNING (str ''[!]'' @ str '' '' @ str ''Using first visible input field'')"
    by (simp_all add: Let_def)
  from input_locator_tiers [OF d r0 t0 m(1), of "str ''code''"]
  have w4: "fst (find_input_field (still_browser []) (str ''code'') (Some (str ''20'')) bot0)
       = Inr None"
    by (simp add: Let_def)
  show ?thesis
    by (intro conjI d r t a v f1 w1 f2 k1 w2 k2 w3 r0 w4)
qed

section \<open>The code fetcher\<close>

lemma try_except_catch_all:
  assumes "\<And>e s. is_Exception e \<Longrightarrow> \<exists>x s'. h e s = (Inr x, s')"
    and "\<And>e. \<not> is_Exception e \<Longrightarrow> h e = throw e"
    and "fst (try_except m h s) = Inl e"
  shows "\<not> is_Exception e"
proof
  assume ex: "is_Exception e"
  obtain r s1 where m: "m s = (r, s1)" by (cases "m s")
  show False
  proof (cases r)
    case (Inl e')
    show False
    proof (cases "is_Exception e'")
      case True
      from assms(1) [OF True, of s1] obtain x s' where "h e' s1 = (Inr x, s')" by blast
      with m Inl assms(3) show False by (simp add: try_except_apply)
    next
      case False
      from assms(2) [OF False] m Inl assms(3) have "e = e'"
        by (simp add: try_except_apply throw_apply)
      with False ex show False by simp
    qed
  next
    case (Inr x)
    with m assms(3) show False by (simp add: try_except_apply)
  qed
qed

lemma failed_attempt_returns:
  "failed_attempt a msg s =
     (Inr (Failed_with msg),
      s\<lparr>events := events s @ [Print (str ''[!] Attempt '' @ str_nat (a + 1) @ str '': '' @ msg)]\<rparr>)"
  by (simp add: failed_attempt_def run_simps)

lemma attempt_handlers_Exception:
  "is_Exception e \<Longrightarrow> \<exists>msg s'. attempt_handlers N a e s = (Inr (Failed_with msg), s')"
  by (cases e) (simp_all add: attempt_handlers_def failed_attempt_returns is_Exception_def)

lemma attempt_handlers_interrupt:
  "\<not> is_Exception e \<Longrightarrow> attempt_handlers N a e = throw e"
  by (cases e) (simp_all add: attempt_handlers_def is_Exception_def)

lemma fetch_attempt_raises:
  assumes "fst (fetch_attempt N a s) = Inl e"
  shows "\<not> is_Exception e"
proof (rule try_except_catch_all [OF _ _ assms [unfolded fetch_attempt_def]])
  fix e :: exn and s :: "('a, 'b) st_scheme"
  assume "is_Exception e"
  from attempt_handlers_Exception [OF this, of N a s]
  show "\<exists>x s'. attempt_handlers N a e s = (Inr x, s')" by blast
next
  fix e :: exn
  assume "\<not> is_Exception e"
  then show "attempt_handlers N a e = (throw e :: (('a, 'b) st_scheme, attempt_result) act)"
    by (rule attempt_handlers_interrupt)
qed

lemma fetch_attempts_raises:
  "fst (fetch_attempts N as last_error s) = Inl e \<Longrightarrow> \<not> is_Exception e"
proof (induction as arbitrary: last_error s)
  case Nil
  then show ?case by (simp add: run_simps)
next
  case (Cons a as)
  obtain r s1 where m: "fetch_attempt N a s = (r, s1)" by (cases "fetch_attempt N a s")
  show ?case
  proof (cases r)
    case (Inl e')
    with m Cons.prems have "e = e'" by (simp add: bindE_apply)
    with fetch_attempt_raises [of N a s e'] m Inl show ?thesis by simp
  next
    case (Inr res)
    with m Cons.prems Cons.IH show ?thesis
      by (cases res) (auto simp: bindE_apply ret_apply)
  qed
qed

lemma fetch_with_retry_raises:
  "fst (fetch_with_retry N s) = Inl e \<Longrightarrow> \<not> is_Exception e"
  by (auto simp: fetch_with_retry_def run_simps dest: fetch_attempts_raises split: if_splits)

lemma unique_loop_acc: "unique_loop ms seen acc = acc @ unique_loop ms seen []"
proof (induction ms arbitrary: seen acc)
  case Nil
  show ?case by simp
next
  case (Cons m ms)
  show ?case
  proof (cases "m \<in> seen")
    case True
    have "unique_loop (m # ms) seen acc = unique_loop ms seen acc"
      using True by simp
    also have "\<dots> = acc @ unique_loop ms seen []"
      by (rule Cons.IH)
    also have "unique_loop ms seen [] = unique_loop (m # ms) seen []"
      using True by simp
    finally show ?thesis .
  next
    case False
    have "unique_loop (m # ms) seen acc = unique_loop ms (insert m seen) (acc @ [m])"
      using False by simp
    also have "\<dots> = (acc @ [m]) @ unique_loop ms (insert m seen) []"
      by (rule Cons.IH)
    also have "\<dots> = acc @ ([m] @ unique_loop ms (insert m seen) [])"
      by simp
    also have "[m] @ unique_loop ms (insert m seen) [] = unique_loop ms (insert m seen) [m]"
      by (rule Cons.IH [symmetric])
    also have "unique_loop ms (insert m seen) [m] = unique_loop (m # ms) seen []"
      using False by simp
    finally show ?thesis .
  qed
qed

lemma unique_loop_distinct:
  "distinct acc \<Longrightarrow> set acc \<subseteq> seen \<Longrightarrow> distinct (unique_loop ms seen acc)"
proof (induction ms arbitrary: seen acc)
  case Nil
  then show ?case by simp
next
  case (Cons m ms)
  show ?case
  proof (cases "m \<in> seen")
    case True
    with Cons.IH [of acc seen] Cons.prems show ?thesis by simp
  next
    case False
    with Cons.prems have "distinct (acc @ [m])" "set (acc @ [m]) \<subseteq> insert m seen"
      by auto
    from Cons.IH [OF this] False show ?thesis by simp
  qed
qed

lemma unique_loop_firsts:
  "unique_loop ms seen [] =
     map (\<lambda>i. ms ! i) (filter (\<lambda>i. ms ! i \<notin> seen \<union> set (take i ms)) [0..<length ms])"
proof (induction ms arbitrary: seen)
  case Nil
  show ?case by simp
next
  case (Cons m ms)
  define keep where "keep = (\<lambda>i. (m # ms) ! i \<notin> seen \<union> set (take i (m # ms)))"
  have idx: "[0..<length (m # ms)] = 0 # map Suc [0..<length ms]"
    by (simp add: upt_conv_Cons map_Suc_upt del: upt_Suc)
  have rest: "map (\<lambda>i. (m # ms) ! i) (filter keep (map Suc [0..<length ms])) =
              map (\<lambda>i. ms ! i) (filter (\<lambda>i. keep (Suc i)) [0..<length ms])"
    by (simp add: filter_map comp_def)
  have k0: "keep 0 \<longleftrightarrow> m \<notin> seen"
    by (simp add: keep_def)
  show ?case
  proof (cases "m \<in> seen")
    case True
    have "(\<lambda>i. keep (Suc i)) = (\<lambda>i. ms ! i \<notin> seen \<union> set (take i ms))"
      using True by (auto simp: keep_def)
    with rest have "map (\<lambda>i. (m # ms) ! i) (filter keep (map Suc [0..<length ms])) =
                    unique_loop ms seen []"
      by (simp only: Cons.IH [of seen])
    moreover have "unique_loop (m # ms) seen [] = unique_loop ms seen []"
      using True by simp
    ultimately show ?thesis
      unfolding idx keep_def [symmetric] using True k0 by simp
  next
    case False
    have "(\<lambda>i. keep (Suc i)) = (\<lambda>i. ms ! i \<notin> insert m seen \<union> set (take i ms))"
      by (auto simp: keep_def)
    with rest have "map (\<lambda>i. (m # ms) ! i) (filter keep (map Suc [0..<length ms])) =
                    unique_loop ms (insert m seen) []"
      by (simp only: Cons.IH [of "insert m seen"])
    moreover have "unique_loop (m # ms) seen [] = m # unique_loop ms (insert m seen) []"
      using False unique_loop_acc [of ms "insert m seen" "[m]"] by simp
    ultimately show ?thesis
      unfolding idx keep_def [symmetric] using False k0 by simp
  qed
qed

lemma seqE_emits:
  "seqE (map (\<lambda>c. emit (g c)) cs) s = (Inr (), s\<lparr>events := events s @ map g cs\<rparr>)"
  by (induction cs arbitrary: s) (simp_all add: run_simps)

lemma fetch_result:
  "fst (fetch N s) = Inr codes \<Longrightarrow>
     codes = [] \<or> (\<exists>matches. codes = take MAX_CODES_TO_FETCH (unique_loop matches {} []))"
  by (auto simp: fetch_def run_simps Let_def seqE_emits
      split: prod.splits sum.splits option.splits if_splits)

lemma fetch_raises:
  assumes "fst (fetch N s) = Inl e"
  shows "\<not> is_Exception e"
proof
  assume ex: "is_Exception e"
  define s0 where "s0 = s\<lparr>events := events s @
    [Print (str ''[*] Fetching active codes from '' @ CODES_SOURCE_URL @ str ''...'')]\<rparr>"
  obtain r s1 where m: "fetch_with_retry N s0 = (r, s1)" by (cases "fetch_with_retry N s0")
  from fetch_with_retry_raises [of N s0 e] m ex have nr: "r \<noteq> Inl e"
    by auto
  from assms m nr ex show False
    unfolding fetch_def s0_def
    by (auto simp: run_simps Let_def seqE_emits
        split: prod.splits sum.splits option.splits if_splits)
qed

lemma fetch_parsed:
  assumes "fetch_with_retry N (s\<lparr>events := events s @
      [Print (str ''[*] Fetching active codes from '' @ CODES_SOURCE_URL @ str ''...'')]\<rparr>)
        = (Inr (Some html), s2)"
    and "html \<noteq> []"
    and "soup_get_text N html (world s2) = (Inr all_text, w3)"
    and "pattern_findall N all_text w3 = (Inr matches, w4)"
  shows "fst (fetch N s) = Inr (take MAX_CODES_TO_FETCH (unique_loop matches {} []))"
  using assms
  by (simp add: fetch_def run_simps Let_def seqE_emits)

lemma fetch_parse_fails:
  assumes "fetch_with_retry N (s\<lparr>events := events s @
      [Print (str ''[*] Fetching active codes from '' @ CODES_SOURCE_URL @ str ''...'')]\<rparr>)
        = (Inr (Some html), s2)"
    and "soup_get_text N html (world s2) = (Inl e, w3)
         \<or> (\<exists>all_text w. soup_get_text N html (world s2) = (Inr all_text, w)
              \<and> pattern_findall N all_text w = (Inl e, w3))"
    and "is_Exception e"
  shows "fst (fetch N s) = Inr []"
  using assms
  by (auto simp: fetch_def run_simps Let_def)

lemma fetch_attempt_fails:
  assumes "\<forall>w. \<exists>e. fst (requests_get N w) = Inl e \<and> is_Exception e"
    and "\<forall>d w e. fst (web_sleep N d w) = Inl e \<longrightarrow> is_Exception e"
  shows "\<exists>msg s'. fetch_attempt N a s = (Inr (Failed_with msg), s')"
proof -
  define body :: "(('a, 'b) st_scheme, attempt_result) act" where "body =
       (thenE
          (if a > 0 then
             (let delay = retry_delay_between * retry_backoff_multiplier ^ (a - 1) in
              thenE (emit (Print (str ''[*] Retry '' @ str_nat (a + 1) @ str ''/''
                       @ str_nat retry_max_attempts @ str '' after '' @ fmt_1f delay @ str ''s...'')))
                (thenE (emit (Sleep delay)) (call (web_sleep N delay))))
           else ret ())
          (bindE (thenE (emit (HttpGet CODES_SOURCE_URL)) (call (requests_get N)))
             (\<lambda>text. ret (Fetched text))))"
  have "\<exists>e s1. body s = (Inl e, s1) \<and> is_Exception e"
  proof -
    have get: "\<exists>e s1. bindE (thenE (emit (HttpGet CODES_SOURCE_URL)) (call (requests_get N)))
             (\<lambda>text. ret (Fetched text)) t = (Inl e, s1) \<and> is_Exception e"
      for t :: "('a, 'b) st_scheme"
    proof -
      from assms(1) obtain e where "fst (requests_get N (world t)) = Inl e" "is_Exception e"
        by blast
      then show ?thesis
        by (cases "requests_get N (world t)") (simp add: run_simps)
    qed
    show ?thesis
    proof (cases "a > 0")
      case False
      with get [of s] show ?thesis by (simp add: body_def run_simps)
    next
      case True
      define delay where "delay = retry_delay_between * retry_backoff_multiplier ^ (a - 1)"
      define t where "t = s\<lparr>events := events s @
          [Print (str ''[*] Retry '' @ str_nat (a + 1) @ str ''/''
                       @ str_nat retry_max_attempts @ str '' after '' @ fmt_1f delay @ str ''s...''),
           Sleep delay]\<rparr>"
      obtain r w where sl: "web_sleep N delay (world s) = (r, w)"
        by (cases "web_sleep N delay (world s)")
      show ?thesis
      proof (cases r)
        case (Inl e)
        with sl assms(2) have "is_Exception e" by (metis fst_conv)
        with True sl Inl show ?thesis
          by (simp add: body_def run_simps Let_def delay_def)
      next
        case (Inr u)
        with True sl get [of "t\<lparr>world := w\<rparr>"] show ?thesis
          by (simp add: body_def run_simps Let_def delay_def t_def)
      qed
    qed
  qed
  then obtain e s1 where b: "body s = (Inl e, s1)" "is_Exception e" by blast
  from attempt_handlers_Exception [OF b(2), of N a s1] b(1) show ?thesis
    by (simp add: fetch_attempt_def body_def [symmetric] try_except_apply)
qed

lemma fetch_attempts_exhausted:
  assumes "\<forall>w. \<exists>e. fst (requests_get N w) = Inl e \<and> is_Exception e"
    and "\<forall>d w e. fst (web_sleep N d w) = Inl e \<longrightarrow> is_Exception e"
  shows "\<exists>s'. fetch_attempts N as last_error s = (Inr None, s')"
proof (induction as arbitrary: last_error s)
  case Nil
  show ?case by (simp add: run_simps)
next
  case (Cons a as)
  from fetch_attempt_fails [OF assms, of a s] obtain msg s1
    where "fetch_attempt N a s = (Inr (Failed_with msg), s1)" by blast
  with Cons.IH [of "Some msg" s1] show ?case
    by (simp add: bindE_apply)
qed

lemma fetch_exhausted:
  assumes "\<not> has_scraping N \<or>
     ((\<forall>w. \<exists>e. fst (requests_get N w) = Inl e \<and> is_Exception e)
      \<and> (\<forall>d w e. fst (web_sleep N d w) = Inl e \<longrightarrow> is_Exception e))"
  shows "fst (fetch N s) = Inr []"
proof -
  define s0 where "s0 = s\<lparr>events := events s @
    [Print (str ''[*] Fetching active codes from '' @ CODES_SOURCE_URL @ str ''...'')]\<rparr>"
  have "\<exists>s'. fetch_with_retry N s0 = (Inr None, s')"
  proof (cases "has_scraping N")
    case False
    then show ?thesis by (simp add: fetch_with_retry_def run_simps)
  next
    case True
    with assms fetch_attempts_exhausted [of N "[0..<retry_max_attempts]" None s0]
    show ?thesis by (simp add: fetch_with_retry_def)
  qed
  then obtain s' where "fetch_with_retry N s0 = (Inr None, s')" by blast
  then show ?thesis
    by (simp add: fetch_def s0_def run_simps)
qed

text \<open>
  C8. \<open>fetch\<close> raises no \<open>Exception\<close> (only an interrupt can leave it); the list it returns
  has no duplicates and at most \<open>MAX_CODES_TO_FETCH\<close> entries; when the page was fetched
  and parsed, the list is the matches at the positions where a match occurs for the first
  time, in the order of those positions, cut to \<open>MAX_CODES_TO_FETCH\<close>; when the scraping
  packages are missing, or every request fails (and no delay is interrupted), the list is
  empty; and when parsing raises an \<open>Exception\<close>, the list is empty.
\<close>

theorem code_fetcher_contract:
  "(\<forall>e. fst (fetch N s) = Inl e \<longrightarrow> \<not> is_Exception e)
   \<and> (\<forall>codes. fst (fetch N s) = Inr codes \<longrightarrow>
         distinct codes \<and> length codes \<le> MAX_CODES_TO_FETCH)
   \<and> (\<forall>html s2 all_text w3 matches w4.
         fetch_with_retry N (s\<lparr>events := events s @
             [Print (str ''[*] Fetching active codes from '' @ CODES_SOURCE_URL @ str ''...'')]\<rparr>)
           = (Inr (Some html), s2)
         \<and> html \<noteq> []
         \<and> soup_get_text N html (world s2) = (Inr all_text, w3)
         \<and> pattern_findall N all_text w3 = (Inr matches, w4)
       \<longrightarrow> fst (fetch N s) =
             Inr (take MAX_CODES_TO_FETCH
                    (map (\<lambda>i. matches ! i)
                       (filter (\<lambda>i. matches ! i \<notin> set (take i matches)) [0..<length matches]))))
   \<and> (\<not> has_scraping N \<or>
        ((\<forall>w. \<exists>e. fst (requests_get N w) = Inl e \<and> is_Exception e)
         \<and> (\<forall>d w e. fst (web_sleep N d w) = Inl e \<longrightarrow> is_Exception e))
       \<longrightarrow> fst (fetch N s) = Inr [])
   \<and> (\<forall>html s2 e w3.
         fetch_with_retry N (s\<lparr>events := events s @
             [Print (str ''[*] Fetching active codes from '' @ CODES_SOURCE_URL @ str ''...'')]\<rparr>)
           = (Inr (Some html), s2)
         \<and> (soup_get_text N html (world s2) = (Inl e, w3)
            \<or> (\<exists>all_text w. soup_get_text N html (world s2) = (Inr all_text, w)
                 \<and> pattern_findall N all_text w = (Inl e, w3)))
         \<and> is_Exception e
       \<longrightarrow> fst (fetch N s) = Inr [])"
proof (intro conjI allI impI)
  fix e assume "fst (fetch N s) = Inl e"
  then show "\<not> is_Exception e" by (rule fetch_raises)
next
  fix codes assume r: "fst (fetch N s) = Inr codes"
  have "distinct (unique_loop matches {} [])" for matches
    by (rule unique_loop_distinct) simp_all
  with fetch_result [OF r] show "distinct codes"
    by auto
next
  fix codes assume r: "fst (fetch N s) = Inr codes"
  from fetch_result [OF r] show "length codes \<le> MAX_CODES_TO_FETCH"
    by auto
next
  fix html s2 all_text w3 matches w4
  assume "fetch_with_retry N (s\<lparr>events := events s @
             [Print (str ''[*] Fetching active codes from '' @ CODES_SOURCE_URL @ str ''...'')]\<rparr>)
           = (Inr (Some html), s2)
         \<and> html \<noteq> []
         \<and> soup_get_text N html (world s2) = (Inr all_text, w3)
         \<and> pattern_findall N all_text w3 = (Inr matches, w4)"
  then have "fst (fetch N s) = Inr (take MAX_CODES_TO_FETCH (unique_loop matches {} []))"
    by (auto intro: fetch_parsed)
  then show "fst (fetch N s) =
             Inr (take MAX_CODES_TO_FETCH
                    (map (\<lambda>i. matches ! i)
                       (filter (\<lambda>i. matches ! i \<notin> set (take i matches)) [0..<length matches])))"
    by (simp add: unique_loop_firsts)
next
  assume "\<not> has_scraping N \<or>
        ((\<forall>w. \<exists>e. fst (requests_get N w) = Inl e \<and> is_Exception e)
         \<and> (\<forall>d w e. fst (web_sleep N d w) = Inl e \<longrightarrow> is_Exception e))"
  then show "fst (fetch N s) = Inr []" by (rule fetch_exhausted)
next
  fix html s2 e w3
  assume "fetch_with_retry N (s\<lparr>events := events s @
             [Print (str ''[*] Fetching active codes from '' @ CODES_SOURCE_URL @ str ''...'')]\<rparr>)
           = (Inr (Some html), s2)
         \<and> (soup_get_text N html (world s2) = (Inl e, w3)
            \<or> (\<exists>all_text w. soup_get_text N html (world s2) = (Inr all_text, w)
                 \<and> pattern_findall N all_text w = (Inl e, w3)))
         \<and> is_Exception e"
  then show "fst (fetch N s) = Inr []"
    by (intro fetch_parse_fails [of N s html s2 e w3]) auto
qed

lemma shop_web_fetched:
  "fetch_with_retry shop_web (st0\<lparr>events := events st0 @
       [Print (str ''[*] Fetching active codes from '' @ CODES_SOURCE_URL @ str ''...'')]\<rparr>)
     = (Inr (Some (str ''<html>codes</html>'')),
        st0\<lparr>events := events st0 @
          [Print (str ''[*] Fetching active codes from '' @ CODES_SOURCE_URL @ str ''...''),
           HttpGet CODES_SOURCE_URL]\<rparr>)"
  by (simp add: fetch_with_retry_def retry_max_attempts_def attempts_list fetch_attempt_def
      shop_web_def st0_def run_simps)

theorem code_fetcher_contract_witness:
  "fetch_with_retry shop_web (st0\<lparr>events := events st0 @
       [Print (str ''[*] Fetching active codes from '' @ CODES_SOURCE_URL @ str ''...'')]\<rparr>)
     = (Inr (Some (str ''<html>codes</html>'')),
        st0\<lparr>events := events st0 @
          [Print (str ''[*] Fetching active codes from '' @ CODES_SOURCE_URL @ str ''...''),
           HttpGet CODES_SOURCE_URL]\<rparr>)
   \<and> soup_get_text shop_web (str ''<html>codes</html>'') () = (Inr (str ''codes''), ())
   \<and> pattern_findall shop_web (str ''codes'') ()
       = (Inr [str ''ABC123'', str ''XYZ789'', str ''ABC123'', str ''KING2025''], ())
   \<and> fst (fetch shop_web st0) = Inr [str ''ABC123'', str ''XYZ789'', str ''KING2025'']
   \<and> (\<forall>w. fst (requests_get down_web w) = Inl RequestsConnectionError)
   \<and> (\<forall>d w. fst (web_sleep down_web d w) = Inr ())
   \<and> fst (fetch down_web st0) = Inr []"
proof -
  have g: "soup_get_text shop_web (str ''<html>codes</html>'') () = (Inr (str ''codes''), ())"
    by (simp add: shop_web_def)
  have f: "pattern_findall shop_web (str ''codes'') ()
       = (Inr [str ''ABC123'', str ''XYZ789'', str ''ABC123'', str ''KING2025''], ())"
    by (simp add: shop_web_def)
  have w: "world (st0\<lparr>events := evs\<rparr>) = ()" for evs
    by simp
  have idx: "[0..<4] = [0, 1, 2, 3::nat]"
    by (simp add: upt_rec)
  have r: "\<forall>w. fst (requests_get down_web w) = Inl RequestsConnectionError"
    by (simp add: down_web_def)
  have n: "\<forall>d w. fst (web_sleep down_web d w) = Inr ()"
    by (simp add: down_web_def shop_web_def)
  have x: "is_Exception RequestsConnectionError"
    by (simp add: is_Exception_def)
  from code_fetcher_contract [of shop_web st0] shop_web_fetched g f w
  have a: "fst (fetch shop_web st0) = Inr [str ''ABC123'', str ''XYZ789'', str ''KING2025'']"
    by (simp add: MAX_CODES_TO_FETCH_def idx)
  from code_fetcher_contract [of down_web st0] r n x
  have b: "fst (fetch down_web st0) = Inr []"
    by auto
  from shop_web_fetched g f a r n b show ?thesis
    by simp
qed

section \<open>Quiet computations\<close>

named_theorems qa

lemma quiet_refl: "quiet s s"
  by (simp add: quiet_def)

lemma quiet_trans: "quiet s t \<Longrightarrow> quiet t u \<Longrightarrow> quiet s u"
  by (auto simp: quiet_def)

lemma quiet_actD: "quiet_act m \<Longrightarrow> m s = (r, s') \<Longrightarrow> quiet s s'"
  by (auto simp: quiet_act_def dest: spec [of _ s])

lemma qa_ret [qa]: "quiet_act (ret x)"
  by (simp add: quiet_act_def ret_def quiet_refl)

lemma qa_throw [qa]: "quiet_act (throw e)"
  by (simp add: quiet_act_def throw_def quiet_refl)

lemma qa_gets [qa]: "quiet_act (gets f)"
  by (simp add: quiet_act_def gets_def quiet_refl)

lemma qa_emit: "ev \<noteq> Quit \<Longrightarrow> quiet_act (emit ev)"
  by (simp add: quiet_act_def emit_def quiet_def)

lemma qa_call [qa]: "quiet_act (call f)"
  by (simp add: quiet_act_def call_def quiet_def split: prod.splits)

lemma qa_bindE [qa]:
  assumes "quiet_act m" and "\<And>x. quiet_act (f x)"
  shows "quiet_act (bindE m f)"
  unfolding quiet_act_def
proof
  fix s
  obtain r s1 where m: "m s = (r, s1)" by (cases "m s")
  from quiet_actD [OF assms(1) m] have q1: "quiet s s1" .
  show "quiet s (snd (bindE m f s))"
  proof (cases r)
    case (Inl e)
    with m q1 show ?thesis by (simp add: bindE_apply)
  next
    case (Inr x)
    obtain r2 s2 where f: "f x s1 = (r2, s2)" by (cases "f x s1")
    from quiet_actD [OF assms(2) f] q1 have "quiet s s2" by (blast intro: quiet_trans)
    with m Inr f show ?thesis by (simp add: bindE_apply)
  qed
qed

lemma qa_thenE [qa]: "quiet_act m \<Longrightarrow> quiet_act n \<Longrightarrow> quiet_act (thenE m n)"
  unfolding thenE_def by (rule qa_bindE)

lemma qa_try_except [qa]:
  assumes "quiet_act m" and "\<And>e. quiet_act (h e)"
  shows "quiet_act (try_except m h)"
  unfolding quiet_act_def
proof
  fix s
  obtain r s1 where m: "m s = (r, s1)" by (cases "m s")
  from quiet_actD [OF assms(1) m] have q1: "quiet s s1" .
  show "quiet s (snd (try_except m h s))"
  proof (cases r)
    case (Inr x)
    with m q1 show ?thesis by (simp add: try_except_apply)
  next
    case (Inl e)
    obtain r2 s2 where f: "h e s1 = (r2, s2)" by (cases "h e s1")
    from quiet_actD [OF assms(2) f] q1 have "quiet s s2" by (blast intro: quiet_trans)
    with m Inl f show ?thesis by (simp add: try_except_apply)
  qed
qed

lemma qa_if [qa]: "quiet_act m \<Longrightarrow> quiet_act n \<Longrightarrow> quiet_act (if c then m else n)"
  by simp

lemma qa_case_option [qa]:
  "quiet_act m \<Longrightarrow> (\<And>y. quiet_act (f y)) \<Longrightarrow> quiet_act (case x of None \<Rightarrow> m | Some y \<Rightarrow> f y)"
  by (cases x) simp_all

lemma qa_case_flow [qa]:
  "(\<And>y. quiet_act (f y)) \<Longrightarrow> quiet_act m \<Longrightarrow> quiet_act (case x of Return y \<Rightarrow> f y | Next \<Rightarrow> m)"
  by (cases x) simp_all

lemma qa_case_list [qa]:
  "quiet_act m \<Longrightarrow> (\<And>y ys. quiet_act (f y ys)) \<Longrightarrow> quiet_act (case x of [] \<Rightarrow> m | y # ys \<Rightarrow> f y ys)"
  by (cases x) simp_all

lemma qa_Let [qa]: "quiet_act (f x) \<Longrightarrow> quiet_act (Let x f)"
  by simp

lemma qa_seqE [qa]: "(\<And>m. m \<in> set ms \<Longrightarrow> quiet_act m) \<Longrightarrow> quiet_act (seqE ms)"
  by (induction ms) (auto intro: qa_ret qa_thenE)

lemma qa_seqE_then [qa]:
  "(\<And>m. m \<in> set ms \<Longrightarrow> quiet_act m) \<Longrightarrow> quiet_act n \<Longrightarrow> quiet_act (seqE_then ms n)"
  unfolding seqE_then_def by (intro qa_thenE qa_seqE)

lemma qa_drv [qa]: "quiet_act (drv f)"
  by (simp add: quiet_act_def drv_def call_def quiet_def split: prod.splits)

lemma qa_drv_do: "ev \<noteq> Quit \<Longrightarrow> quiet_act (drv_do ev f)"
  by (simp add: quiet_act_def drv_do_def run_simps quiet_def split: prod.splits sum.splits)

lemma qa_log [qa]:
  "quiet_act (log_info msg)" "quiet_act (log_success msg)" "quiet_act (log_error msg)"
  "quiet_act (log_warning msg)" "quiet_act (log_debug msg)" "quiet_act (log_section msg)"
  by (auto simp: log_defs log_section_def intro!: qa_emit qa_thenE)

lemma qa_prims [qa]:
  "quiet_act (sleep E d)" "quiet_act (click E el)" "quiet_act (clear E el)"
  "quiet_act (send_keys E el keys)" "quiet_act (execute_script E js args)"
  "quiet_act (get E url)"
  by (auto simp: sleep_def click_def clear_def send_keys_def execute_script_def get_def
      intro!: qa_emit qa_thenE qa_call qa_drv_do)

lemma qa_find_safe [qa]:
  "quiet_act (find_elements_safe E how v)" "quiet_act (find_element_safe E how v)"
  "quiet_act (is_element_visible E el)"
  unfolding find_elements_safe_def find_element_safe_def is_element_visible_def
  by (intro qa)+

lemma qa_click_attempt [qa]: "quiet_act (click_attempt E el a)"
  unfolding click_attempt_def by (intro qa)

lemma qa_click_attempts: "quiet_act (click_attempts E el as)"
  by (induction as) (auto intro!: qa)

lemma qa_click_element_safe [qa]: "quiet_act (click_element_safe E el)"
  unfolding click_element_safe_def by (rule qa_click_attempts)

lemma qa_displayed_elems: "quiet_act (displayed_elems E els acc)"
  by (induction els arbitrary: acc) (auto intro!: qa)

lemma qa_clickables_of: "quiet_act (clickables_of E sels acc)"
  by (induction sels arbitrary: acc) (auto intro!: qa qa_displayed_elems)

lemma qa_find_all_clickables [qa]: "quiet_act (find_all_clickables E)"
  unfolding find_all_clickables_def by (rule qa_clickables_of)

lemma qa_button_by_text [qa]: "quiet_act (button_by_text E kws els)"
  by (induction els) (auto intro!: qa)

lemma qa_find_button_by_keywords [qa]: "quiet_act (find_button_by_keywords E kws sel)"
  unfolding find_button_by_keywords_def by (intro qa)

lemma qa_visible_of [qa]: "quiet_act (visible_of E xs)"
  by (induction xs) (auto intro!: qa)

lemma qa_by_maxlength [qa]: "quiet_act (by_maxlength E m xs)"
  by (induction xs) (auto intro!: qa)

lemma qa_by_placeholder [qa]: "quiet_act (by_placeholder E ft xs)"
  by (induction xs) (auto intro!: qa)

lemma qa_find_input_field [qa]: "quiet_act (find_input_field E ft ml)"
  unfolding find_input_field_def by (intro qa)

lemma qa_analyze_result [qa]: "quiet_act (analyze_result E code)"
  unfolding analyze_result_def by (intro qa)

lemma qa_close_with_buttons [qa]: "quiet_act (close_with_buttons E btns)"
  by (induction btns) (auto intro!: qa)

lemma qa_close_with_selectors [qa]: "quiet_act (close_with_selectors E sels)"
  by (induction sels) (auto intro!: qa)

lemma qa_close_with_mask [qa]: "quiet_act (close_with_mask E)"
  unfolding close_with_mask_def by (auto intro!: qa)

lemma qa_close_with_script [qa]: "quiet_act (close_with_script E)"
  unfolding close_with_script_def by (auto intro!: qa)

lemma qa_dismiss_modal [qa]: "quiet_act (dismiss_modal E)"
  unfolding dismiss_modal_def by (auto intro!: qa)

lemma qa_wait_for_vue [qa]: "quiet_act (wait_for_vue E)"
  unfolding wait_for_vue_def by (auto intro!: qa)

lemma qa_clear_browser_state [qa]: "quiet_act (clear_browser_state E)"
  unfolding clear_browser_state_def by (auto intro!: qa qa_drv_do)

lemma qa_login_steps [qa]: "quiet_act (login_steps E)"
  unfolding login_steps_def by (auto intro!: qa)

lemma qa_login [qa]: "quiet_act (login E)"
  unfolding login_def by (auto intro!: qa)

lemma qa_report_progress [qa]: "quiet_act (report_progress cb k d)"
  unfolding report_progress_def by (auto intro!: qa qa_emit)

lemma qa_redeem_steps [qa]: "quiet_act (redeem_steps E code cb)"
  unfolding redeem_steps_def by (auto intro!: qa)

lemma qa_redeem_code [qa]: "quiet_act (redeem_code E code cb)"
  unfolding redeem_code_def by (auto intro!: qa)

lemma qa_redeem_loop [qa]: "quiet_act (redeem_loop E n i codes counts)"
  by (induction codes arbitrary: i counts) (auto intro!: qa simp: Let_def)

lemma qa_print_summary [qa]: "quiet_act (print_summary counts)"
  unfolding print_summary_def by (auto intro!: qa qa_emit)

lemma qa_run_cli_body [qa]: "quiet_act (run_cli_body E codes)"
  unfolding run_cli_body_def by (auto intro!: qa)

section \<open>Modal dismissal\<close>

text \<open>
  C2. On a page with no close button, no mask and no modal (every lookup finds nothing),
  with a driver whose script call goes through, \<open>dismiss_modal\<close> returns \<open>True\<close>, after the
  log line "Modal force-closed with JavaScript"; the branch that logs "No active modal
  found" and returns \<open>False\<close> is not reached.
\<close>

theorem dismiss_modal_without_overlay:
  "dismiss_modal (still_browser []) bot0 =
     (Inr True,
      bot0\<lparr>events :=
        [Log INFO (str ''[*]'' @ str '' '' @ str ''Checking for active modal...''),
         Sleep modal_check,
         ExecuteScript JS_force_close_modals [],
         Log INFO (str ''[+]'' @ str '' '' @ str ''Modal force-closed with JavaScript''),
         Sleep modal_check]\<rparr>)"
  by (simp add: dismiss_modal_def close_with_mask_def close_with_script_def sel_close_buttons_def
      find_elements_safe_def find_element_safe_def execute_script_def drv_do_def
      seqE_then_def sleep_apply run_simps log_defs still_browser_def bot0_def)


section \<open>Sequential isolation\<close>

lemma quiet_events: "quiet s s' \<Longrightarrow> set (events s) \<subseteq> set (events s')"
  by (auto simp: quiet_def)

lemma log_section_apply:
  "log_section title s =
     (Inr (), s\<lparr>events := events s @
        [Log INFO [], Log INFO (replicate 60 (of_char CHR ''='')), Log INFO title,
         Log INFO (replicate 60 (of_char CHR ''=''))]\<rparr>)"
  by (simp add: log_section_def run_simps)

lemma redeem_handler_apply:
  "is_Exception e \<Longrightarrow>
   seqE_then [log_error (str ''Redemption error: '' @ exn_str E e), log_debug (format_exc E e)]
     (ret FAILED) s =
   (Inr FAILED, s\<lparr>events := events s @
      [Log ERROR (str ''[ERROR]'' @ str '' '' @ str ''Redemption error: '' @ exn_str E e),
       Log DEBUG (str ''[DEBUG]'' @ str '' '' @ format_exc E e)]\<rparr>)"
  by (simp add: seqE_then_def run_simps log_defs)

lemma redeem_code_raises:
  assumes "fst (redeem_code E code cb s) = Inl e"
  shows "\<not> is_Exception e"
proof -
  define s1 where "s1 = snd (log_section (str ''REDEEMING CODE: '' @ code) s)"
  have "redeem_code E code cb s =
        try_except (redeem_steps E code cb)
          (\<lambda>e. if is_Exception e then
                 seqE_then
                   [log_error (str ''Redemption error: '' @ exn_str E e),
                    log_debug (format_exc E e)]
                   (ret FAILED)
               else throw e) s1"
    by (simp add: redeem_code_def s1_def thenE_apply log_section_apply)
  with assms have r: "fst (try_except (redeem_steps E code cb)
          (\<lambda>e. if is_Exception e then
                 seqE_then
                   [log_error (str ''Redemption error: '' @ exn_str E e),
                    log_debug (format_exc E e)]
                   (ret FAILED)
               else throw e) s1) = Inl e"
    by simp
  show ?thesis
    by (rule try_except_catch_all [OF _ _ r]) (simp_all add: seqE_then_def run_simps log_defs)
qed

lemma redeem_code_failed:
  assumes "redeem_steps E code cb (snd (log_section (str ''REDEEMING CODE: '' @ code) s))
             = (Inl e, s2)"
    and "is_Exception e"
  shows "redeem_code E code cb s =
     (Inr FAILED, s2\<lparr>events := events s2 @
        [Log ERROR (str ''[ERROR]'' @ str '' '' @ str ''Redemption error: '' @ exn_str E e),
         Log DEBUG (str ''[DEBUG]'' @ str '' '' @ format_exc E e)]\<rparr>)"
  using assms
  by (simp add: redeem_code_def log_section_def seqE_then_def run_simps log_defs)

lemma redeem_code_header:
  "Log INFO (str ''REDEEMING CODE: '' @ code) \<in> set (events (snd (redeem_code E code cb s)))"
proof -
  define s1 where "s1 = snd (log_section (str ''REDEEMING CODE: '' @ code) s)"
  define rest where "rest = try_except (redeem_steps E code cb)
          (\<lambda>e. if is_Exception e then
                 seqE_then
                   [log_error (str ''Redemption error: '' @ exn_str E e),
                    log_debug (format_exc E e)]
                   (ret FAILED)
               else throw e)"
  have q: "quiet_act rest"
    unfolding rest_def by (auto intro!: qa)
  have r: "redeem_code E code cb s = rest s1"
    by (simp add: redeem_code_def s1_def rest_def thenE_apply log_section_apply)
  have "Log INFO (str ''REDEEMING CODE: '' @ code) \<in> set (events s1)"
    by (simp add: s1_def log_section_apply)
  moreover from q have "quiet s1 (snd (rest s1))"
    by (simp add: quiet_act_def)
  ultimately show ?thesis
    using quiet_events r by fastforce
qed

lemma redeem_loop_total:
  "fst (redeem_loop E n i codes counts s) = Inr c \<Longrightarrow>
     total c = total counts + int (length codes)
     \<and> (\<forall>code \<in> set codes.
          Log INFO (str ''REDEEMING CODE: '' @ code)
            \<in> set (events (snd (redeem_loop E n i codes counts s))))"
proof (induction codes arbitrary: i counts s)
  case Nil
  then show ?case by (simp add: ret_apply)
next
  case (Cons code rest)
  obtain r1 s1 where rc: "redeem_code E code None s = (r1, s1)"
    by (cases "redeem_code E code None s")
  from Cons.prems rc obtain result where r1: "r1 = Inr result"
    by (cases r1) (simp_all add: bindE_apply)
  define counts' where "counts' =
             (if result = SUCCESS then counts\<lparr>successful := successful counts + 1\<rparr>
              else if result = ALREADY_CLAIMED then
                counts\<lparr>already_claimed := already_claimed counts + 1\<rparr>
              else counts\<lparr>failed := failed counts + 1\<rparr>)"
  have t': "total counts' = total counts + 1"
    by (simp add: counts'_def total_def)
  obtain r2 s2 where sl: "(if i < n then sleep E between_codes else ret ()) s1 = (r2, s2)"
    by (cases "(if i < n then sleep E between_codes else ret ()) s1")
  have step: "redeem_loop E n i (code # rest) counts s =
     (case r2 of Inl e \<Rightarrow> (Inl e, s2) | Inr u \<Rightarrow> redeem_loop E n (i + 1) rest counts' s2)"
    using rc r1 sl unfolding counts'_def
    by (simp add: bindE_apply thenE_apply Let_def split: sum.splits)
  from Cons.prems step obtain u where r2: "r2 = Inr u"
    by (cases r2) simp_all
  from step r2 have step': "redeem_loop E n i (code # rest) counts s
      = redeem_loop E n (i + 1) rest counts' s2"
    by simp
  from Cons.prems step' have "fst (redeem_loop E n (i + 1) rest counts' s2) = Inr c"
    by simp
  from Cons.IH [OF this] have ih: "total c = total counts' + int (length rest)"
    "\<forall>code \<in> set rest. Log INFO (str ''REDEEMING CODE: '' @ code)
            \<in> set (events (snd (redeem_loop E n (i + 1) rest counts' s2)))"
    by simp_all
  have h1: "Log INFO (str ''REDEEMING CODE: '' @ code) \<in> set (events s1)"
    using redeem_code_header [of code E None s] rc by simp
  have "quiet_act (if i < n then sleep E between_codes else ret ())"
    by (auto intro!: qa)
  then have q1: "quiet s1 s2"
    using sl by (rule quiet_actD)
  have "quiet s2 (snd (redeem_loop E n (i + 1) rest counts' s2))"
    using qa_redeem_loop [of E n "i + 1" rest counts'] by (simp add: quiet_act_def)
  with q1 h1 have "Log INFO (str ''REDEEMING CODE: '' @ code)
      \<in> set (events (snd (redeem_loop E n (i + 1) rest counts' s2)))"
    using quiet_events by blast
  with ih t' step' show ?case by simp
qed

lemma redeem_loop_raises:
  assumes "\<forall>w e. fst (time_sleep E between_codes w) = Inl e \<longrightarrow> \<not> is_Exception e"
  shows "fst (redeem_loop E n i codes counts s) = Inl e \<Longrightarrow> \<not> is_Exception e"
proof (induction codes arbitrary: i counts s)
  case Nil
  then show ?case by (simp add: ret_apply)
next
  case (Cons code rest)
  obtain r1 s1 where rc: "redeem_code E code None s = (r1, s1)"
    by (cases "redeem_code E code None s")
  show ?case
  proof (cases r1)
    case (Inl e1)
    with rc Cons.prems have "e = e1" by (simp add: bindE_apply)
    with redeem_code_raises [of E code None s e1] rc Inl show ?thesis by simp
  next
    case (Inr result)
    define counts' where "counts' =
             (if result = SUCCESS then counts\<lparr>successful := successful counts + 1\<rparr>
              else if result = ALREADY_CLAIMED then
                counts\<lparr>already_claimed := already_claimed counts + 1\<rparr>
              else counts\<lparr>failed := failed counts + 1\<rparr>)"
    obtain r2 s2 where sl: "(if i < n then sleep E between_codes else ret ()) s1 = (r2, s2)"
      by (cases "(if i < n then sleep E between_codes else ret ()) s1")
    have step: "redeem_loop E n i (code # rest) counts s =
       (case r2 of Inl e \<Rightarrow> (Inl e, s2) | Inr u \<Rightarrow> redeem_loop E n (i + 1) rest counts' s2)"
      using rc Inr sl unfolding counts'_def
      by (simp add: bindE_apply thenE_apply Let_def split: sum.splits)
    show ?thesis
    proof (cases r2)
      case (Inl e2)
      with step Cons.prems have e: "e = e2" by simp
      from sl Inl have "fst (time_sleep E between_codes (world s1)) = Inl e2"
        by (auto simp: sleep_apply ret_apply split: if_splits prod.splits)
      with assms e show ?thesis by blast
    next
      case (Inr u)
      with step Cons.prems Cons.IH [of "i + 1" counts' s2] show ?thesis by simp
    qed
  qed
qed

lemma redeem_loop_continues:
  assumes "redeem_steps E code None (snd (log_section (str ''REDEEMING CODE: '' @ code) s))
             = (Inl e, s2)"
    and "is_Exception e"
  shows "redeem_loop E n i (code # rest) counts s =
     thenE (if i < n then sleep E between_codes else ret ())
       (redeem_loop E n (i + 1) rest (counts\<lparr>failed := failed counts + 1\<rparr>))
       (s2\<lparr>events := events s2 @
        [Log ERROR (str ''[ERROR]'' @ str '' '' @ str ''Redemption error: '' @ exn_str E e),
         Log DEBUG (str ''[DEBUG]'' @ str '' '' @ format_exc E e)]\<rparr>)"
  using redeem_code_failed [OF assms]
  by (simp add: bindE_apply Let_def)

lemma broken_steps:
  "fst (redeem_steps broken_browser code None
          (snd (log_section (str ''REDEEMING CODE: '' @ code) bot0)))
     = Inl WebDriverException"
  by (simp add: redeem_steps_def seqE_then_def report_progress_def sleep_apply
      find_input_field_def find_elements_safe_def log_section_def run_simps log_defs
      broken_browser_def still_browser_def bot0_def)

lemma broken_loop:
  "fst (redeem_loop broken_browser 2 1 [code_ABC123, code_XYZ789] RedeemStats_init bot0)
     = Inr \<lparr>successful = 0, already_claimed = 0, failed = 2\<rparr>"
  by (simp add: redeem_code_def redeem_steps_def seqE_then_def report_progress_def sleep_apply
      find_input_field_def find_elements_safe_def log_section_def run_simps log_defs
      broken_browser_def still_browser_def bot0_def RedeemStats_init_def Let_def
      is_Exception_def)

text \<open>
  C3. \<open>redeem_code\<close> lets no \<open>Exception\<close> out; if the statements inside its \<open>try\<close> raise an
  \<open>Exception\<close> at any point, it logs the error and returns \<open>FAILED\<close>; the loop of \<open>run_cli\<close>
  then goes on with the remaining codes, \<open>failed\<close> one higher; whenever the loop returns,
  the counters have grown by the number of codes and the header line of every code is in
  the log; and if the pause between codes raises no \<open>Exception\<close>, only an interrupt can
  stop the loop.
\<close>

theorem sequential_isolation:
  "(\<forall>e. fst (redeem_code E code cb s) = Inl e \<longrightarrow> \<not> is_Exception e)
   \<and> (\<forall>e s2.
         redeem_steps E code cb (snd (log_section (str ''REDEEMING CODE: '' @ code) s))
           = (Inl e, s2)
         \<and> is_Exception e
       \<longrightarrow> redeem_code E code cb s =
             (Inr FAILED, s2\<lparr>events := events s2 @
                [Log ERROR (str ''[ERROR]'' @ str '' '' @ str ''Redemption error: ''
                   @ exn_str E e),
                 Log DEBUG (str ''[DEBUG]'' @ str '' '' @ format_exc E e)]\<rparr>))
   \<and> (\<forall>e s2 n i rest counts.
         redeem_steps E code None (snd (log_section (str ''REDEEMING CODE: '' @ code) s))
           = (Inl e, s2)
         \<and> is_Exception e
       \<longrightarrow> redeem_loop E n i (code # rest) counts s =
             thenE (if i < n then sleep E between_codes else ret ())
               (redeem_loop E n (i + 1) rest (counts\<lparr>failed := failed counts + 1\<rparr>))
               (s2\<lparr>events := events s2 @
                  [Log ERROR (str ''[ERROR]'' @ str '' '' @ str ''Redemption error: ''
                     @ exn_str E e),
                   Log DEBUG (str ''[DEBUG]'' @ str '' '' @ format_exc E e)]\<rparr>))
   \<and> (\<forall>n i codes counts c.
         fst (redeem_loop E n i codes counts s) = Inr c
       \<longrightarrow> total c = total counts + int (length codes)
           \<and> (\<forall>code \<in> set codes.
                Log INFO (str ''REDEEMING CODE: '' @ code)
                  \<in> set (events (snd (redeem_loop E n i codes counts s)))))
   \<and> ((\<forall>w e. fst (time_sleep E between_codes w) = Inl e \<longrightarrow> \<not> is_Exception e)
       \<longrightarrow> (\<forall>n i codes counts e.
             fst (redeem_loop E n i codes counts s) = Inl e \<longrightarrow> \<not> is_Exception e))"
proof (intro conjI allI impI ballI)
  fix e assume "fst (redeem_code E code cb s) = Inl e"
  then show "\<not> is_Exception e" by (rule redeem_code_raises)
next
  fix e s2
  assume "redeem_steps E code cb (snd (log_section (str ''REDEEMING CODE: '' @ code) s))
           = (Inl e, s2) \<and> is_Exception e"
  then show "redeem_code E code cb s =
             (Inr FAILED, s2\<lparr>events := events s2 @
                [Log ERROR (str ''[ERROR]'' @ str '' '' @ str ''Redemption error: ''
                   @ exn_str E e),
                 Log DEBUG (str ''[DEBUG]'' @ str '' '' @ format_exc E e)]\<rparr>)"
    by (intro redeem_code_failed) simp_all
next
  fix e s2 n i rest counts
  assume "redeem_steps E code None (snd (log_section (str ''REDEEMING CODE: '' @ code) s))
           = (Inl e, s2) \<and> is_Exception e"
  then show "redeem_loop E n i (code # rest) counts s =
             thenE (if i < n then sleep E between_codes else ret ())
               (redeem_loop E n (i + 1) rest (counts\<lparr>failed := failed counts + 1\<rparr>))
               (s2\<lparr>events := events s2 @
                  [Log ERROR (str ''[ERROR]'' @ str '' '' @ str ''Redemption error: ''
                     @ exn_str E e),
                   Log DEBUG (str ''[DEBUG]'' @ str '' '' @ format_exc E e)]\<rparr>)"
    by (intro redeem_loop_continues) simp_all
next
  fix n i codes counts c
  assume "fst (redeem_loop E n i codes counts s) = Inr c"
  from redeem_loop_total [OF this] show "total c = total counts + int (length codes)"
    by simp
next
  fix n i codes counts c code'
  assume "fst (redeem_loop E n i codes counts s) = Inr c" and "code' \<in> set codes"
  with redeem_loop_total [of E n i codes counts s c]
  show "Log INFO (str ''REDEEMING CODE: '' @ code')
          \<in> set (events (snd (redeem_loop E n i codes counts s)))"
    by blast
next
  fix n i codes counts e
  assume "\<forall>w e. fst (time_sleep E between_codes w) = Inl e \<longrightarrow> \<not> is_Exception e"
    and "fst (redeem_loop E n i codes counts s) = Inl e"
  then show "\<not> is_Exception e" by (rule redeem_loop_raises)
qed

theorem sequential_isolation_witness:
  "is_Exception WebDriverException
   \<and> fst (redeem_steps broken_browser code_ABC123 None
            (snd (log_section (str ''REDEEMING CODE: '' @ code_ABC123) bot0)))
       = Inl WebDriverException
   \<and> fst (redeem_code broken_browser code_ABC123 None bot0) = Inr FAILED
   \<and> fst (redeem_loop broken_browser 2 1 [code_ABC123, code_XYZ789] RedeemStats_init bot0)
       = Inr \<lparr>successful = 0, already_claimed = 0, failed = 2\<rparr>
   \<and> total \<lparr>successful = 0, already_claimed = 0, failed = 2\<rparr>
       = total RedeemStats_init + int (length [code_ABC123, code_XYZ789])
   \<and> Log INFO (str ''REDEEMING CODE: '' @ code_XYZ789)
       \<in> set (events (snd (redeem_loop broken_browser 2 1 [code_ABC123, code_XYZ789]
                               RedeemStats_init bot0)))"
proof -
  have x: "is_Exception WebDriverException"
    by (simp add: is_Exception_def)
  obtain s2 where st: "redeem_steps broken_browser code_ABC123 None
            (snd (log_section (str ''REDEEMING CODE: '' @ code_ABC123) bot0))
       = (Inl WebDriverException, s2)"
    using broken_steps [of code_ABC123]
    by (cases "redeem_steps broken_browser code_ABC123 None
            (snd (log_section (str ''REDEEMING CODE: '' @ code_ABC123) bot0))") simp
  note fail = sequential_isolation [of broken_browser code_ABC123 None bot0,
      THEN conjunct2, THEN conjunct1, rule_format]
  note loop = sequential_isolation [of broken_browser code_ABC123 None bot0,
      THEN conjunct2, THEN conjunct2, THEN conjunct2, THEN conjunct1, rule_format]
  have "redeem_code broken_browser code_ABC123 None bot0 =
             (Inr FAILED, s2\<lparr>events := events s2 @
                [Log ERROR (str ''[ERROR]'' @ str '' '' @ str ''Redemption error: ''
                   @ exn_str broken_browser WebDriverException),
                 Log DEBUG (str ''[DEBUG]'' @ str '' ''
                   @ format_exc broken_browser WebDriverException)]\<rparr>)"
    by (rule fail) (intro conjI st x)
  then have f: "fst (redeem_code broken_browser code_ABC123 None bot0) = Inr FAILED"
    by simp
  from loop [OF broken_loop]
  have t: "total \<lparr>successful = 0, already_claimed = 0, failed = 2\<rparr>
       = total RedeemStats_init + int (length [code_ABC123, code_XYZ789])"
    and h: "Log INFO (str ''REDEEMING CODE: '' @ code_XYZ789)
       \<in> set (events (snd (redeem_loop broken_browser 2 1 [code_ABC123, code_XYZ789]
                               RedeemStats_init bot0)))"
    by simp_all
  show ?thesis
    by (intro conjI x broken_steps f broken_loop t h)
qed

section \<open>Release of the browser session\<close>

text \<open>Calm computations: the constructor assigns the driver and calls no \<open>quit\<close>.\<close>

named_theorems ca

lemma calm_refl: "calm s s"
  by (simp add: calm_def)

lemma calm_trans: "calm s t \<Longrightarrow> calm t u \<Longrightarrow> calm s u"
  by (auto simp: calm_def)

lemma calm_actD: "calm_act m \<Longrightarrow> m s = (r, s') \<Longrightarrow> calm s s'"
  by (auto simp: calm_act_def dest: spec [of _ s])

lemma ca_quiet: "quiet_act m \<Longrightarrow> calm_act m"
  by (auto simp: quiet_act_def calm_act_def quiet_def calm_def)

lemma ca_set_driver [ca]: "calm_act (set_driver d)"
  by (simp add: calm_act_def set_driver_def calm_def)

lemma ca_set_identity [ca]: "calm_act (set_identity pid name)"
  by (simp add: calm_act_def set_identity_def calm_def)

lemma ca_bindE [ca]:
  assumes "calm_act m" and "\<And>x. calm_act (f x)"
  shows "calm_act (bindE m f)"
  unfolding calm_act_def
proof
  fix s
  obtain r s1 where m: "m s = (r, s1)" by (cases "m s")
  from calm_actD [OF assms(1) m] have q1: "calm s s1" .
  show "calm s (snd (bindE m f s))"
  proof (cases r)
    case (Inl e)
    with m q1 show ?thesis by (simp add: bindE_apply)
  next
    case (Inr x)
    obtain r2 s2 where f: "f x s1 = (r2, s2)" by (cases "f x s1")
    from calm_actD [OF assms(2) f] q1 have "calm s s2" by (blast intro: calm_trans)
    with m Inr f show ?thesis by (simp add: bindE_apply)
  qed
qed

lemma ca_thenE [ca]: "calm_act m \<Longrightarrow> calm_act n \<Longrightarrow> calm_act (thenE m n)"
  unfolding thenE_def by (rule ca_bindE)

lemma ca_try_except [ca]:
  assumes "calm_act m" and "\<And>e. calm_act (h e)"
  shows "calm_act (try_except m h)"
  unfolding calm_act_def
proof
  fix s
  obtain r s1 where m: "m s = (r, s1)" by (cases "m s")
  from calm_actD [OF assms(1) m] have q1: "calm s s1" .
  show "calm s (snd (try_except m h s))"
  proof (cases r)
    case (Inr x)
    with m q1 show ?thesis by (simp add: try_except_apply)
  next
    case (Inl e)
    obtain r2 s2 where f: "h e s1 = (r2, s2)" by (cases "h e s1")
    from calm_actD [OF assms(2) f] q1 have "calm s s2" by (blast intro: calm_trans)
    with m Inl f show ?thesis by (simp add: try_except_apply)
  qed
qed

lemma ca_seqE [ca]: "(\<And>m. m \<in> set ms \<Longrightarrow> calm_act m) \<Longrightarrow> calm_act (seqE ms)"
  by (induction ms) (auto intro: ca ca_quiet qa)

lemma qa_initialize_edge: "quiet_act (initialize_edge E)"
  unfolding initialize_edge_def by (auto intro!: qa)

lemma qa_configure_edge_options: "quiet_act (configure_edge_options L options)"
  unfolding configure_edge_options_def Let_def by (auto intro!: qa)

lemma qa_BotLogger_setup: "quiet_act (BotLogger_setup L pid)"
  unfolding BotLogger_setup_def Let_def by (auto intro!: qa qa_emit)

lemma ca_initialize_driver: "calm_act (initialize_driver E L headless browser_path)"
proof -
  have a: "calm_act (case browser_path of
              None \<Rightarrow> ret []
            | Some path \<Rightarrow>
                if path = [] then ret []
                else
                  bindE (gets browser_name) (\<lambda>name.
                    thenE (log_info (str ''Using '' @ name @ str '' browser: '' @ path))
                      (if name = str ''Edge'' then
                         configure_edge_options L [Binary_location path]
                       else ret [Binary_location path])))"
    by (rule ca_quiet) (auto intro!: qa qa_configure_edge_options split: option.splits)
  have b: "calm_act (if headless then
              thenE (log_info (str ''Headless mode enabled (INVISIBLE browser)''))
                (ret (options1 @ map Add_argument CHROME_HEADLESS_OPTIONS))
            else thenE (log_info (str ''Visible mode enabled'')) (ret options1))" for options1
    by (rule ca_quiet) (auto intro!: qa)
  have c: "calm_act (emit StartChrome)" "calm_act (call f)" "calm_act (ret x)"
    for f :: "'a \<Rightarrow> (exn + 'c) \<times> 'a" and x :: 'd
    by (rule ca_quiet, auto intro!: qa qa_emit)+
  have d: "calm_act (log_success msg)" for msg
    by (rule ca_quiet) (auto intro!: qa)
  have e: "calm_act (bindE (gets browser_name) (\<lambda>name.
                       if name = str ''Edge'' then initialize_edge E else ret ()))"
    by (rule ca_quiet) (auto intro!: qa qa_initialize_edge)
  have h: "calm_act (if is_WebDriverException e then
                   thenE (log_error (str ''Failed to start ChromeDriver: '' @ exn_str E e))
                     (throw e)
                 else throw e)" for e
    by (rule ca_quiet) (auto intro!: qa)
  have l: "calm_act (log_info (str ''Starting ChromeDriver...''))"
    by (rule ca_quiet) (auto intro!: qa)
  show ?thesis
    unfolding initialize_driver_def Let_def seqE.simps
    by (intro ca_bindE ca_thenE ca_try_except ca_set_driver a b c d e h l)
qed

lemma ca_KingshotBotHeadless:
  "calm_act (KingshotBotHeadless E L pid headless browser_path name)"
proof -
  have a: "calm_act (thenE (BotLogger_setup L pid) (ret ()))"
    by (rule ca_quiet) (auto intro!: qa qa_BotLogger_setup)
  have b: "calm_act (ret ())"
    by (rule ca_quiet) (rule qa_ret)
  show ?thesis
    unfolding KingshotBotHeadless_def seqE.simps
    by (intro ca_thenE [OF a] ca_thenE [OF ca_set_identity] ca_thenE [OF ca_set_driver]
        ca_thenE [OF ca_initialize_driver] b)
qed

text \<open>A constructor that has returned has assigned the driver.\<close>

lemma bindE_returns:
  assumes "bindE m f s = (Inr y, s')"
  obtains x s1 where "m s = (Inr x, s1)" and "f x s1 = (Inr y, s')"
  using assms by (auto simp: bindE_apply split: prod.splits sum.splits)

lemma thenE_returns:
  assumes "thenE m n s = (Inr y, s')"
  obtains x s1 where "m s = (Inr x, s1)" and "n s1 = (Inr y, s')"
  using assms by (auto simp: thenE_apply split: prod.splits sum.splits)

lemma initialize_driver_returns:
  assumes "initialize_driver E L headless browser_path s = (Inr u, s')"
  shows "driver s' \<noteq> None"
proof -
  from assms [unfolded initialize_driver_def Let_def]
  obtain options1 s1 options2 s2 x3 s3 where
    t: "try_except
            (bindE (thenE (emit StartChrome) (call (webdriver_Chrome L
                (options2 @ map Add_argument CHROME_OPTIONS
                 @ map (\<lambda>(key, v). Add_experimental_option key v) CHROME_EXPERIMENTAL_OPTIONS))))
               (\<lambda>d.
               seqE [set_driver (Some d),
                     log_success (str ''ChromeDriver started successfully''),
                     bindE (gets browser_name) (\<lambda>name.
                       if name = str ''Edge'' then initialize_edge E else ret ())]))
            (\<lambda>e. if is_WebDriverException e then
                   thenE (log_error (str ''Failed to start ChromeDriver: '' @ exn_str E e))
                     (throw e)
                 else throw e) s3 = (Inr u, s')"
    by (elim bindE_returns thenE_returns)
  define body where "body = bindE (thenE (emit StartChrome) (call (webdriver_Chrome L
                (options2 @ map Add_argument CHROME_OPTIONS
                 @ map (\<lambda>(key, v). Add_experimental_option key v) CHROME_EXPERIMENTAL_OPTIONS))))
               (\<lambda>d.
               seqE [set_driver (Some d),
                     log_success (str ''ChromeDriver started successfully''),
                     bindE (gets browser_name) (\<lambda>name.
                       if name = str ''Edge'' then initialize_edge E else ret ())])"
  have b: "body s3 = (Inr u, s')"
    using t unfolding body_def [symmetric]
    by (auto simp: try_except_apply thenE_apply throw_apply log_defs emit_apply
        split: prod.splits sum.splits if_splits)
  define rest where "rest = bindE (gets browser_name) (\<lambda>name.
                       if name = str ''Edge'' then initialize_edge E else ret ())"
  from b [unfolded body_def seqE.simps, folded rest_def] obtain d s4 x5 s5 x6 s6 x7 s7 where
    sd: "set_driver (Some d) s4 = (Inr x5, s5)"
    and lg: "log_success (str ''ChromeDriver started successfully'') s5 = (Inr x6, s6)"
    and ed: "rest s6 = (Inr x7, s7)"
    and rt: "ret () s7 = (Inr u, s')"
    by (elim bindE_returns thenE_returns)
  have "quiet_act rest"
    unfolding rest_def by (auto intro!: qa qa_initialize_edge)
  from quiet_actD [OF this ed] have "driver s7 = driver s6"
    by (simp add: quiet_def)
  moreover from lg have "driver s6 = driver s5"
    by (auto simp: log_defs emit_apply)
  moreover from sd have "driver s5 = Some d"
    by (auto simp: set_driver_def)
  moreover from rt have "s' = s7"
    by (simp add: ret_apply)
  ultimately show ?thesis by simp
qed

lemma KingshotBotHeadless_returns:
  assumes "KingshotBotHeadless E L pid headless browser_path name s = (Inr u, s')"
  shows "driver s' \<noteq> None"
proof -
  from assms [unfolded KingshotBotHeadless_def seqE.simps]
  obtain x s1 y where i: "initialize_driver E L headless browser_path s1 = (Inr x, y)"
    and r: "ret () y = (Inr u, s')"
    by (elim thenE_returns)
  from r have "s' = y" by (simp add: ret_apply)
  with initialize_driver_returns [OF i] show ?thesis by simp
qed

text \<open>\<open>close\<close>, case by case.\<close>

lemma close_no_driver:
  assumes "driver s = None"
  shows "close E s =
     (Inr (), s\<lparr>events := events s @
        [Log INFO (str ''[*]'' @ str '' '' @ str ''Closing browser...''),
         Log INFO (str ''[+]'' @ str '' '' @ str ''Browser closed successfully'')]\<rparr>)"
  using assms by (simp add: close_def gets_def run_simps log_defs)

lemma close_quit_returns:
  assumes "driver s = Some d" and "drv_quit E (world s) = (Inr (), w')"
  shows "close E s =
     (Inr (), s\<lparr>world := w', driver := None, events := events s @
        [Log INFO (str ''[*]'' @ str '' '' @ str ''Closing browser...''),
         Quit,
         Log INFO (str ''[+]'' @ str '' '' @ str ''Browser closed successfully'')]\<rparr>)"
  using assms by (simp add: close_def gets_def drv_do_def set_driver_def run_simps log_defs)

lemma close_quit_raises:
  assumes "driver s = Some d" and "drv_quit E (world s) = (Inl e, w')" and "is_Exception e"
  shows "close E s =
     (Inr (), s\<lparr>world := w', events := events s @
        [Log INFO (str ''[*]'' @ str '' '' @ str ''Closing browser...''),
         Quit,
         Log DEBUG (str ''[DEBUG]'' @ str '' '' @ str ''Error closing browser: ''
           @ exn_str E e)]\<rparr>)"
  using assms by (simp add: close_def gets_def drv_do_def set_driver_def run_simps log_defs)

lemma close_raises:
  assumes "fst (close E s) = Inl e"
  shows "\<not> is_Exception e"
proof -
  define s1 where "s1 = snd (log_info (str ''Closing browser...'') s)"
  have "close E s =
       try_except
          (thenE
             (bindE (gets driver) (\<lambda>d.
                case d of
                  None \<Rightarrow> ret ()
                | Some _ \<Rightarrow> thenE (drv_do Quit (drv_quit E)) (set_driver None)))
             (log_success (str ''Browser closed successfully'')))
          (\<lambda>e. if is_Exception e then
                 log_debug (str ''Error closing browser: '' @ exn_str E e)
               else throw e) s1"
    by (simp add: close_def s1_def thenE_apply log_defs emit_apply)
  with assms have r: "fst (try_except
          (thenE
             (bindE (gets driver) (\<lambda>d.
                case d of
                  None \<Rightarrow> ret ()
                | Some _ \<Rightarrow> thenE (drv_do Quit (drv_quit E)) (set_driver None)))
             (log_success (str ''Browser closed successfully'')))
          (\<lambda>e. if is_Exception e then
                 log_debug (str ''Error closing browser: '' @ exn_str E e)
               else throw e) s1) = Inl e"
    by simp
  show ?thesis
    by (rule try_except_catch_all [OF _ _ r]) (simp_all add: run_simps log_defs)
qed

lemma close_quits_once:
  assumes "driver s = Some d"
  shows "\<exists>tail. events (snd (close E s)) = events s @
        [Log INFO (str ''[*]'' @ str '' '' @ str ''Closing browser...''), Quit] @ tail
      \<and> Quit \<notin> set tail"
proof -
  obtain r w' where q: "drv_quit E (world s) = (r, w')" by (cases "drv_quit E (world s)")
  show ?thesis
    using assms q
    by (cases r)
       (auto simp: close_def gets_def drv_do_def set_driver_def run_simps log_defs)
qed

lemma qa_run_cli_except: "quiet_act (run_cli_except E e)"
  unfolding run_cli_except_def by (auto intro!: qa qa_emit)

text \<open>The \<open>try\<close> statement of \<open>run_cli\<close> once \<open>bot\<close> is bound.\<close>

lemma bound_bot_released:
  assumes "driver s = Some d"
  shows "\<exists>evs tail.
      events (snd (try_finally (try_except (run_cli_body E codes) (run_cli_except E))
                     (close E) s)) = events s @ evs @
        [Log INFO (str ''[*]'' @ str '' '' @ str ''Closing browser...''), Quit] @ tail
      \<and> Quit \<notin> set evs \<and> Quit \<notin> set tail"
proof -
  define m where "m = try_except (run_cli_body E codes) (run_cli_except E)"
  have qm: "quiet_act m"
    unfolding m_def by (intro qa qa_run_cli_except)
  obtain r s1 where ms: "m s = (r, s1)" by (cases "m s")
  from quiet_actD [OF qm ms] assms obtain evs
    where d1: "driver s1 = Some d" and e1: "events s1 = events s @ evs" "Quit \<notin> set evs"
    by (auto simp: quiet_def)
  have fin: "snd (try_finally m (close E) s) = snd (close E s1)"
    using ms by (simp add: try_finally_def split: prod.splits sum.splits)
  from close_quits_once [OF d1, of E] obtain tail
    where "events (snd (close E s1)) = events s1 @
        [Log INFO (str ''[*]'' @ str '' '' @ str ''Closing browser...''), Quit] @ tail"
      and "Quit \<notin> set tail"
    by blast
  with fin e1 show ?thesis unfolding m_def by auto
qed

lemma run_cli_bound:
  assumes "KingshotBotHeadless E L pid headless browser_path (Some name) s = (Inr u, s1)"
  shows "run_cli E L pid headless browser_path name codes s =
     try_finally (try_except (run_cli_body E codes) (run_cli_except E)) (close E) s1"
  using assms by (simp add: run_cli_def)

lemma run_cli_unbound:
  assumes "KingshotBotHeadless E L pid headless browser_path (Some name) s = (Inl e, s1)"
  shows "run_cli E L pid headless browser_path name codes s =
     (Inr 1, s1\<lparr>events := events s1 @
        (if e = KeyboardInterrupt then
           [Print (10 # str ''[!] Process interrupted by user'')]
         else
           [Print (10 # str ''[ERROR] Unexpected error: '' @ exn_str E e),
            Print (format_exc E e)])\<rparr>)"
  using assms
  by (simp add: run_cli_def try_finally_def run_cli_except_def seqE_then_def run_simps
      is_Exception_def)

lemma quit_calls_append: "quit_calls (xs @ ys) = quit_calls xs + quit_calls ys"
  by (simp add: quit_calls_def)

lemma quit_calls_none: "Quit \<notin> set xs \<Longrightarrow> quit_calls xs = 0"
  by (induction xs) (auto simp: quit_calls_def)

lemma quit_calls_list:
  "quit_calls [] = 0"
  "quit_calls (ev # evs) = (if ev = Quit then 1 else 0) + quit_calls evs"
  by (simp_all add: quit_calls_def)

lemma run_cli_bound_releases:
  assumes "KingshotBotHeadless E L pid headless browser_path (Some name) s = (Inr u, s1)"
  shows "\<exists>evs tail.
      events (snd (run_cli E L pid headless browser_path name codes s)) = events s1 @ evs @
        [Log INFO (str ''[*]'' @ str '' '' @ str ''Closing browser...''), Quit] @ tail
      \<and> Quit \<notin> set evs \<and> Quit \<notin> set tail"
proof -
  from KingshotBotHeadless_returns [OF assms] obtain d where "driver s1 = Some d"
    by auto
  from bound_bot_released [OF this, of E codes] show ?thesis
    unfolding run_cli_bound [OF assms] .
qed

lemma run_cli_bound_quits_once:
  assumes "KingshotBotHeadless E L pid headless browser_path (Some name) s = (Inr u, s1)"
  shows "quit_calls (events (snd (run_cli E L pid headless browser_path name codes s)))
    = quit_calls (events s) + 1"
proof -
  from calm_actD [OF ca_KingshotBotHeadless assms] obtain evs0
    where e0: "events s1 = events s @ evs0" "Quit \<notin> set evs0"
    by (auto simp: calm_def)
  from run_cli_bound_releases [OF assms, of codes] obtain evs tail
    where e: "events (snd (run_cli E L pid headless browser_path name codes s)) =
        events s1 @ evs @
        [Log INFO (str ''[*]'' @ str '' '' @ str ''Closing browser...''), Quit] @ tail"
      and n: "Quit \<notin> set evs" "Quit \<notin> set tail"
    by blast
  show ?thesis
    unfolding e e0 using n e0(2)
    by (simp add: quit_calls_append quit_calls_none quit_calls_list)
qed

lemma run_cli_unbound_quits_not:
  assumes "KingshotBotHeadless E L pid headless browser_path (Some name) s = (Inl e, s1)"
  shows "quit_calls (events (snd (run_cli E L pid headless browser_path name codes s)))
    = quit_calls (events s)"
proof -
  from calm_actD [OF ca_KingshotBotHeadless assms] obtain evs0
    where e0: "events s1 = events s @ evs0" "Quit \<notin> set evs0"
    by (auto simp: calm_def)
  show ?thesis
    unfolding run_cli_unbound [OF assms] using e0
    by (simp add: quit_calls_append quit_calls_none quit_calls_list)
qed

lemma run_cli_quits_at_most_once:
  "quit_calls (events (snd (run_cli E L pid headless browser_path name codes s)))
    \<le> quit_calls (events s) + 1"
proof -
  obtain r s1 where k: "KingshotBotHeadless E L pid headless browser_path (Some name) s = (r, s1)"
    by (cases "KingshotBotHeadless E L pid headless browser_path (Some name) s")
  show ?thesis
  proof (cases r)
    case (Inl e)
    with k run_cli_unbound_quits_not [of E L pid headless browser_path name s e s1 codes]
    show ?thesis by simp
  next
    case (Inr u)
    with k run_cli_bound_quits_once [of E L pid headless browser_path name s u s1 codes]
    show ?thesis by simp
  qed
qed

text \<open>The constructor on the example machines.\<close>

lemma built_by:
  "KingshotBotHeadless E runtime0 id_12345678 True (Some chrome_path) (Some (str ''Chrome''))
     unbuilt = (Inr (), built)"
  by (simp add: KingshotBotHeadless_def set_identity_def BotLogger_setup_def
      initialize_driver_def set_driver_def gets_def seqE_then_def run_simps log_defs
      runtime0_def unbuilt_def built_def id_12345678_def chrome_path_def
      APP_NAME_def VERSION_def log_file_prefix_def log_file_extension_def Let_def)

lemma unstarted:
  "KingshotBotHeadless (still_browser []) no_chrome id_12345678 True (Some chrome_path)
     (Some (str ''Chrome'')) unbuilt =
   (Inl WebDriverException,
    built\<lparr>driver := None, events :=
       [Log INFO (replicate 70 (of_char CHR ''='')),
        Log INFO (str ''Kingshot Gift Code Bot v3.0.0''),
        Log INFO (replicate 70 (of_char CHR ''='')),
        Log INFO (str ''Log file: bot_log_20250101_120000.txt''),
        Log INFO (str ''Player ID: 12345678''),
        Log INFO (str ''[*] Using Chrome browser: /usr/bin/google-chrome''),
        Log INFO (str ''[*] Headless mode enabled (INVISIBLE browser)''),
        Log INFO (str ''[*] Starting ChromeDriver...''),
        StartChrome,
        Log ERROR (str ''[ERROR] Failed to start ChromeDriver: '')]\<rparr>)"
  by (simp add: KingshotBotHeadless_def set_identity_def BotLogger_setup_def
      initialize_driver_def set_driver_def gets_def seqE_then_def run_simps log_defs
      runtime0_def no_chrome_def unbuilt_def built_def id_12345678_def chrome_path_def
      APP_NAME_def VERSION_def log_file_prefix_def log_file_extension_def Let_def
      is_WebDriverException_def still_browser_def)

lemma edge_interrupted:
  "KingshotBotHeadless interrupted_browser runtime0 id_12345678 True (Some edge_path)
     (Some (str ''Edge'')) unbuilt =
   (Inl KeyboardInterrupt,
    \<lparr>world = (),
     events =
       [Log INFO (replicate 70 (of_char CHR ''='')),
        Log INFO (str ''Kingshot Gift Code Bot v3.0.0''),
        Log INFO (replicate 70 (of_char CHR ''='')),
        Log INFO (str ''Log file: bot_log_20250101_120000.txt''),
        Log INFO (str ''Player ID: 12345678''),
        Log INFO (str ''[*] Using Edge browser: /usr/bin/microsoft-edge''),
        Log INFO (str ''[*] Headless mode enabled (INVISIBLE browser)''),
        Log INFO (str ''[*] Starting ChromeDriver...''),
        StartChrome,
        Log INFO (str ''[+] ChromeDriver started successfully''),
        Get (str ''about:blank''),
        Sleep edge_init],
     driver = Some WebDriver, browser_name = str ''Edge'', player_id = str ''12345678''\<rparr>)"
  by (simp add: KingshotBotHeadless_def set_identity_def BotLogger_setup_def
      initialize_driver_def initialize_edge_def configure_edge_options_def
      get_def drv_do_def sleep_apply execute_script_def
      set_driver_def gets_def seqE_then_def run_simps log_defs
      runtime0_def unbuilt_def id_12345678_def edge_path_def
      APP_NAME_def VERSION_def log_file_prefix_def log_file_extension_def Let_def
      is_WebDriverException_def is_Exception_def interrupted_browser_def still_browser_def)

text \<open>The exit paths of a run whose constructor has returned, each on a browser of its own.\<close>

lemma still_run:
  "fst (run_cli (still_browser []) runtime0 id_12345678 True (Some chrome_path) (str ''Chrome'')
          [code_ABC123] unbuilt) = Inr 1"
  unfolding run_cli_bound [OF built_by]
  by (simp add: try_finally_def run_cli_body_def run_cli_except_def login_def login_steps_def
      wait_for_vue_def clear_browser_state_def get_def find_input_field_def
      find_elements_safe_def close_def gets_def drv_do_def set_driver_def seqE_then_def
      sleep_apply run_simps log_defs still_browser_def built_def REDEEM_URL_def
      str_nat_digit)

lemma offline_run:
  "fst (run_cli offline_browser runtime0 id_12345678 True (Some chrome_path) (str ''Chrome'')
          [code_ABC123] unbuilt) = Inr 1"
  unfolding run_cli_bound [OF built_by]
  by (simp add: try_finally_def run_cli_body_def run_cli_except_def login_def
      clear_browser_state_def get_def close_def gets_def drv_do_def set_driver_def seqE_then_def
      sleep_apply run_simps log_defs offline_browser_def still_browser_def built_def
      is_Exception_def)

lemma interrupted_run:
  "fst (run_cli interrupted_browser runtime0 id_12345678 True (Some chrome_path)
          (str ''Chrome'') [code_ABC123] unbuilt) = Inr 1"
  unfolding run_cli_bound [OF built_by]
  by (simp add: try_finally_def run_cli_body_def run_cli_except_def login_def
      clear_browser_state_def get_def close_def gets_def drv_do_def set_driver_def seqE_then_def
      sleep_apply run_simps log_defs interrupted_browser_def still_browser_def built_def
      is_Exception_def)

lemma portal_lower:
  "str_lower portal_browser page_both = str ''<div>gift already claimed - check your mail</div>''"
  by (simp add: portal_browser_def still_browser_def page_both_lower)

lemma portal_already:
  "any_in (kw_already_claimed LANGUAGE_KEYWORDS) (str_lower portal_browser page_both)"
  unfolding portal_lower by (rule any_inI [of "str ''already''"]) (simp_all add: LANGUAGE_KEYWORDS_def)

lemma portal_analyze:
  assumes "driver s = Some WebDriver"
  shows "analyze_result portal_browser code (s :: unit bot) =
     (Inr ALREADY_CLAIMED,
      s\<lparr>events := events s @
        [Log DEBUG (str ''[DEBUG]'' @ str '' '' @ str ''Page content preview: ''
           @ take 500 (str_lower portal_browser page_both)),
         Log WARNING (str ''[!]'' @ str '' '' @ str ''Code '' @ code
           @ str '' was already claimed previously'')]\<rparr>)"
proof -
  have p: "drv_page_source portal_browser (world s) = (Inr page_both, ())"
    by (simp add: portal_browser_def still_browser_def)
  from analyze_result_page [OF assms p, of code] portal_already show ?thesis
    by (simp add: Let_def)
qed

lemma portal_fields:
  "drv_get portal_browser url w = (Inr (), w)"
  "drv_current_url portal_browser w = (Inr REDEEM_URL, w)"
  "drv_find_elements portal_browser how v w =
     (Inr (if how = CSS_SELECTOR \<and> v = sel_text_inputs then [1] else []), w)"
  "drv_find_element portal_browser how v w =
     (if v = sel_mask then (Inl NoSuchElementException, w) else (Inr 9, w))"
  "drv_execute_script portal_browser js args w = (Inr (), w)"
  "drv_quit portal_browser w = (Inr (), w)"
  "wait_until_text portal_browser how v w = (Inr (), w)"
  "el_click portal_browser el w = (Inr (), w)"
  "el_is_displayed portal_browser el w = (Inr True, w)"
  "el_text portal_browser el w = (Inr [], w)"
  "el_get_attribute portal_browser el a w = (Inr None, w)"
  "el_clear portal_browser el w = (Inr (), w)"
  "el_send_keys portal_browser el keys w = (Inr (), w)"
  "time_sleep portal_browser d w = (Inr (), w)"
  "str_lower portal_browser [] = []"
  "str_strip portal_browser t = t"
  by (simp_all add: portal_browser_def still_browser_def ascii_lower_def)

lemma portal_run:
  "fst (run_cli portal_browser runtime0 id_12345678 True (Some chrome_path) (str ''Chrome'')
          [code_ABC123] unbuilt) = Inr 0"
  unfolding run_cli_bound [OF built_by]
  by (simp add: try_finally_def run_cli_body_def run_cli_except_def
      redeem_code_def redeem_steps_def report_progress_def log_section_def
      dismiss_modal_def close_with_mask_def close_with_script_def sel_close_buttons_def
      execute_script_def print_summary_def close_def set_driver_def portal_analyze
      login_def login_steps_def wait_for_vue_def clear_browser_state_def get_def
      find_input_field_def find_elements_safe_def find_element_safe_def is_element_visible_def
      find_button_by_keywords_def click_element_safe_def max_attempts_def attempts_list
      click_attempt_def click_apply click_def clear_def send_keys_def
      gets_def drv_do_def seqE_then_def placeholder_keywords_def any_in_def
      sleep_apply run_simps log_defs portal_fields built_def REDEEM_URL_def
      sel_text_inputs_def sel_login_button_def sel_exchange_button_def sel_mask_def
      str_nat_digit Let_def RedeemStats_init_def LANGUAGE_KEYWORDS_def)




end
